theory Spec2Isabelle
  imports Main "HOL-Library.Word"
begin

section \<open>The UDP relay script \<open>helper_scripts/udp_forward.py\<close>\<close>

text \<open>
  The script is one straight-line start-up phase followed by a \<open>while 1\<close> loop. It talks
  to the outside through the command line, the UDP socket, standard output and the packet
  library. The model makes each of these explicit:
  \<^item> \<open>sys.argv\<close> is a list of Python strings, the script's own name first;
  \<^item> what the machine decides (whether a port can be bound, how a host string resolves
    to an IPv4 address, how the installed packet library encodes a payload it has
    dissected) is a record \<open>host\<close>;
  \<^item> what arrives while the loop runs is a list of \<open>step\<close>s, one per loop iteration:
    the outcome of \<open>recvfrom\<close> and, should the iteration get that far, of \<open>send\<close>;
  \<^item> what the script does is a list of \<open>event\<close>s in program order, and a final
    \<open>status\<close>.
  Creating the socket and writing to standard output are taken to succeed; what the packet
  library prints on its own while sending is not part of the trace.
\<close>

subsection \<open>Values and exceptions\<close>

type_synonym byte = "8 word"
type_synonym bytes = "byte list"

text \<open>A Python \<open>str\<close> is a sequence of Unicode code points. \<open>ascii\<close> turns a literal
  of the script into one.\<close>

type_synonym py_str = "nat list"

definition ascii :: "string \<Rightarrow> py_str" where
  "ascii s = map of_char s"

text \<open>The exceptions that can surface in the script. \<open>socket.error\<close> is an alias of
  \<open>OSError\<close>; \<open>socket.gaierror\<close> is a subclass of it.\<close>

datatype py_exception = IndexError | ValueError | OverflowError | OSError | StructError

definition is_socket_error :: "py_exception \<Rightarrow> bool" where
  "is_socket_error e = (e = OSError)"

text \<open>The arguments of a \<open>print\<close> call, kept as values: \<open>print(data, src_ip, src_port)\<close>
  writes one line made of a bytes object, a string and an integer.\<close>

datatype py_value = PyBytes bytes | PyStr py_str | PyInt int

subsection \<open>Command line\<close>

text \<open>\<open>sys.argv[i]\<close> for a non-negative literal \<open>i\<close>: \<open>IndexError\<close> past the end.\<close>

definition argv_get :: "py_str list \<Rightarrow> nat \<Rightarrow> py_exception + py_str" where
  "argv_get argv i = (if i < length argv then Inr (argv ! i) else Inl IndexError)"

text \<open>
  \<open>int(s)\<close> on a \<open>str\<close>, as CPython 3.11 computes it. First every code point from 128
  on is replaced: a Unicode white space by a blank, a Unicode decimal digit by its ASCII
  digit, anything else by \<open>?\<close>. The table of decimal digits is that of Unicode 14.0: they
  come in runs of ten, \<open>decimal_zeros\<close> lists the zero of each run.
\<close>

definition unicode_space :: "nat \<Rightarrow> bool" where
  "unicode_space c =
     (c \<in> set [0x85, 0xA0, 0x1680, 0x2028, 0x2029, 0x202F, 0x205F, 0x3000]
      \<or> (0x2000 \<le> c \<and> c \<le> 0x200A))"

definition decimal_zeros :: "nat list" where
  "decimal_zeros =
     [0x660, 0x6F0, 0x7C0, 0x966, 0x9E6, 0xA66, 0xAE6, 0xB66,
      0xBE6, 0xC66, 0xCE6, 0xD66, 0xDE6, 0xE50, 0xED0, 0xF20,
      0x1040, 0x1090, 0x17E0, 0x1810, 0x1946, 0x19D0, 0x1A80, 0x1A90,
      0x1B50, 0x1BB0, 0x1C40, 0x1C50, 0xA620, 0xA8D0, 0xA900, 0xA9D0,
      0xA9F0, 0xAA50, 0xABF0, 0xFF10, 0x104A0, 0x10D30, 0x11066, 0x110F0,
      0x11136, 0x111D0, 0x112F0, 0x11450, 0x114D0, 0x11650, 0x116C0, 0x11730,
      0x118E0, 0x11950, 0x11C50, 0x11D50, 0x11DA0, 0x16A60, 0x16AC0, 0x16B50,
      0x1D7CE, 0x1D7D8, 0x1D7E2, 0x1D7EC, 0x1D7F6, 0x1E140, 0x1E2F0, 0x1E950,
      0x1FBF0]"

definition unicode_decimal :: "nat \<Rightarrow> nat option" where
  "unicode_decimal c =
     (case filter (\<lambda>z. z \<le> c \<and> c < z + 10) decimal_zeros of
        [] \<Rightarrow> None
      | z # _ \<Rightarrow> Some (c - z))"

definition to_ascii :: "nat \<Rightarrow> nat" where
  "to_ascii c =
     (if c < 128 then c
      else if unicode_space c then 32
      else case unicode_decimal c of Some d \<Rightarrow> 48 + d | None \<Rightarrow> 63)"

text \<open>
  Then the ASCII text is read: white space (blank, \<open>\t\<close>, \<open>\n\<close>, \<open>\v\<close>, \<open>\f\<close>, \<open>\r\<close>), one
  optional sign, a run of digits and underscores, white space, end. The run must not be
  empty, must not begin or end with an underscore and must not have two underscores in a
  row. More than 4300 digits (the default limit) are refused. Every failure is a
  \<open>ValueError\<close>.
\<close>

definition is_space :: "nat \<Rightarrow> bool" where
  "is_space c = (c \<in> set [32, 9, 10, 11, 12, 13])"

definition is_digit :: "nat \<Rightarrow> bool" where
  "is_digit c = (48 \<le> c \<and> c \<le> 57)"

definition in_numeral :: "nat \<Rightarrow> bool" where
  "in_numeral c = (is_digit c \<or> c = 95)"

fun double_underscore :: "nat list \<Rightarrow> bool" where
  "double_underscore (a # b # cs) = ((a = 95 \<and> b = 95) \<or> double_underscore (b # cs))"
| "double_underscore _ = False"

definition digits_value :: "nat list \<Rightarrow> nat" where
  "digits_value ds = foldl (\<lambda>acc c. 10 * acc + (c - 48)) 0 ds"

definition numeral_value :: "nat list \<Rightarrow> nat option" where
  "numeral_value t =
     (let body = takeWhile in_numeral t;
          rest = dropWhile in_numeral t;
          digits = filter is_digit body
      in if body = [] \<or> hd body = 95 \<or> last body = 95 \<or> double_underscore body then None
         else if \<not> list_all is_space rest then None
         else if 4300 < length digits then None
         else Some (digits_value digits))"

definition py_int :: "py_str \<Rightarrow> py_exception + int" where
  "py_int s =
     (let t = dropWhile is_space (map to_ascii s);
          r = (case t of
                 [] \<Rightarrow> None
               | c # cs \<Rightarrow>
                   if c = 45 then map_option (\<lambda>n. - int n) (numeral_value cs)
                   else if c = 43 then map_option int (numeral_value cs)
                   else map_option int (numeral_value t))
      in case r of None \<Rightarrow> Inl ValueError | Some n \<Rightarrow> Inr n)"

subsection \<open>The host\<close>

type_synonym ipv4 = "byte \<times> byte \<times> byte \<times> byte"

text \<open>
  \<open>bind_ok p\<close>: binding a UDP socket to port \<open>p\<close> on all interfaces succeeds (the port
  is free and the process may use it).
  \<open>h2i s\<close>: the IPv4 address the packet library obtains for the host string \<open>s\<close>
  (\<open>inet_aton\<close>, else name resolution); \<open>None\<close> when there is none.
  \<open>reencode sport dport payload\<close>: the bytes the packet library writes, when it sends a
  packet it has read from bytes, for the UDP payload it read. The library dissects the
  payload with the layer it has bound to the port pair, and a layer need not encode what
  it read byte for byte; where no layer is bound, the payload is kept raw and
  \<open>reencode\<close> returns it unchanged. The bindings and the layers are the library's, not the
  script's.
\<close>

record host =
  bind_ok :: "int \<Rightarrow> bool"
  h2i :: "py_str \<Rightarrow> ipv4 option"
  reencode :: "nat \<Rightarrow> nat \<Rightarrow> bytes \<Rightarrow> bytes"

subsection \<open>The packet library\<close>

text \<open>
  Line 21 builds \<open>IP(dst=..., src=...)/UDP(dport=..., sport=...)/Raw(load=...)\<close>: the five
  fields the script sets; every other header field keeps the library's default. The two
  host strings are resolved when the IP layer is made, the destination first; a string
  that does not resolve raises \<open>socket.gaierror\<close>, an \<open>OSError\<close>.
\<close>

record packet =
  ip_dst :: ipv4
  ip_src :: ipv4
  udp_dport :: int
  udp_sport :: int
  load :: bytes

definition IP_layer :: "host \<Rightarrow> py_str \<Rightarrow> py_str \<Rightarrow> py_exception + (ipv4 \<times> ipv4)" where
  "IP_layer h dst src =
     (case h2i h dst of
        None \<Rightarrow> Inl OSError
      | Some d \<Rightarrow>
          (case h2i h src of
             None \<Rightarrow> Inl OSError
           | Some s \<Rightarrow> Inr (d, s)))"

text \<open>Big-endian 16-bit fields, as \<open>struct.pack("!H", n)\<close> writes them.\<close>

definition be16 :: "nat \<Rightarrow> bytes" where
  "be16 n = [of_nat (n div 256), of_nat (n mod 256)]"

definition addr_bytes :: "ipv4 \<Rightarrow> bytes" where
  "addr_bytes a = (case a of (a1, a2, a3, a4) \<Rightarrow> [a1, a2, a3, a4])"

text \<open>The Internet checksum (RFC 1071): the 16-bit words are added, an odd last byte
  padded with zero, the carries folded back twice, and the result complemented.\<close>

fun sum16 :: "bytes \<Rightarrow> nat" where
  "sum16 [] = 0"
| "sum16 [a] = unat a * 256"
| "sum16 (a # b # rest) = unat a * 256 + unat b + sum16 rest"

definition checksum :: "bytes \<Rightarrow> nat" where
  "checksum bs =
     (let s = sum16 bs;
          s1 = s div 65536 + s mod 65536;
          s2 = s1 + s1 div 65536
      in 65535 - s2 mod 65536)"

text \<open>The IPv4 header the library builds: version 4, header length 5 words, TOS 0, total
  length, identification 1, no flags, no fragment offset, TTL 64, protocol 17 (UDP), header
  checksum, source, destination.\<close>

definition ip_header_fields :: "nat \<Rightarrow> nat \<Rightarrow> ipv4 \<Rightarrow> ipv4 \<Rightarrow> bytes" where
  "ip_header_fields tlen ck s d =
     [0x45, 0] @ be16 tlen @ be16 1 @ be16 0 @ [64, 17] @ be16 ck @ addr_bytes s @ addr_bytes d"

definition ip_header :: "nat \<Rightarrow> ipv4 \<Rightarrow> ipv4 \<Rightarrow> bytes" where
  "ip_header tlen s d = ip_header_fields tlen (checksum (ip_header_fields tlen 0 s d)) s d"

text \<open>The UDP header: source port, destination port, length, checksum. The checksum
  covers a pseudo header (source, destination, zero, protocol, UDP length), the UDP header
  with a zero checksum, and the payload; a computed zero is sent as \<open>0xFFFF\<close>.\<close>

definition udp_header_fields :: "nat \<Rightarrow> nat \<Rightarrow> nat \<Rightarrow> nat \<Rightarrow> bytes" where
  "udp_header_fields sp dp ulen ck = be16 sp @ be16 dp @ be16 ulen @ be16 ck"

definition udp_checksum :: "ipv4 \<Rightarrow> ipv4 \<Rightarrow> nat \<Rightarrow> nat \<Rightarrow> bytes \<Rightarrow> nat" where
  "udp_checksum s d sp dp pl =
     (let ulen = 8 + length pl;
          ck = checksum (addr_bytes s @ addr_bytes d @ [0, 17] @ be16 ulen
                         @ udp_header_fields sp dp ulen 0 @ pl)
      in if ck = 0 then 65535 else ck)"

definition udp_datagram :: "ipv4 \<Rightarrow> ipv4 \<Rightarrow> nat \<Rightarrow> nat \<Rightarrow> bytes \<Rightarrow> bytes" where
  "udp_datagram s d sp dp pl =
     udp_header_fields sp dp (8 + length pl) (udp_checksum s d sp dp pl) @ pl"

text \<open>
  \<open>raw(packet)\<close>: the bytes of the packet. Building fails with \<open>ValueError\<close> when a port
  does not fit its 16-bit field, and with \<open>struct.error\<close> when a length does not.
\<close>

definition raw :: "packet \<Rightarrow> py_exception + bytes" where
  "raw p =
     (if udp_sport p < 0 \<or> 65535 < udp_sport p then Inl ValueError
      else if udp_dport p < 0 \<or> 65535 < udp_dport p then Inl ValueError
      else if 65535 < 28 + length (load p) then Inl StructError
      else Inr (ip_header (28 + length (load p)) (ip_src p) (ip_dst p)
                @ udp_datagram (ip_src p) (ip_dst p) (nat (udp_sport p)) (nat (udp_dport p))
                    (load p)))"

text \<open>The fields of an IPv4/UDP packet with a 20-byte header, read off its bytes.\<close>

definition rd16 :: "bytes \<Rightarrow> nat" where
  "rd16 bs = (case bs of a # b # _ \<Rightarrow> unat a * 256 + unat b | _ \<Rightarrow> 0)"

definition wire_ip_len :: "bytes \<Rightarrow> nat" where
  "wire_ip_len w = rd16 (drop 2 w)"

definition wire_ip_proto :: "bytes \<Rightarrow> byte option" where
  "wire_ip_proto w = (if 9 < length w then Some (w ! 9) else None)"

definition wire_ip_src :: "bytes \<Rightarrow> bytes" where
  "wire_ip_src w = take 4 (drop 12 w)"

definition wire_ip_dst :: "bytes \<Rightarrow> bytes" where
  "wire_ip_dst w = take 4 (drop 16 w)"

definition wire_udp_sport :: "bytes \<Rightarrow> nat" where
  "wire_udp_sport w = rd16 (drop 20 w)"

definition wire_udp_dport :: "bytes \<Rightarrow> nat" where
  "wire_udp_dport w = rd16 (drop 22 w)"

definition wire_udp_len :: "bytes \<Rightarrow> nat" where
  "wire_udp_len w = rd16 (drop 24 w)"

definition wire_payload :: "bytes \<Rightarrow> bytes" where
  "wire_payload w = drop 28 w"

text \<open>
  Line 22, \<open>IP(raw(packet))\<close>: the bytes are read back into a packet, and that packet is
  what line 24 sends. The library reads the addresses and the ports off the headers and
  dissects the payload by the port pair. \<open>ip_packet\<close> keeps, of the packet handed to
  \<open>send\<close>, its addressing and its payload as \<open>send\<close> writes it; the other header fields
  are not tracked.
\<close>

record ip_packet =
  pkt_src :: bytes
  pkt_dst :: bytes
  pkt_sport :: nat
  pkt_dport :: nat
  pkt_payload :: bytes

definition IP_read :: "host \<Rightarrow> bytes \<Rightarrow> ip_packet" where
  "IP_read h w =
     \<lparr>pkt_src = wire_ip_src w, pkt_dst = wire_ip_dst w,
      pkt_sport = wire_udp_sport w, pkt_dport = wire_udp_dport w,
      pkt_payload = reencode h (wire_udp_sport w) (wire_udp_dport w) (wire_payload w)\<rparr>"

subsection \<open>Events and outcomes\<close>

datatype event =
    EvBind int
  | EvStdout "py_value list"
  | EvRecvfrom nat
  | EvSend ip_packet

text \<open>How a run over a finite list of steps ends: \<open>Exited n\<close> is \<open>sys.exit(n)\<close>,
  \<open>Uncaught e\<close> an exception nobody catches (the interpreter prints the traceback and
  leaves with a non-zero status of its own), \<open>Blocked\<close> the loop waiting in \<open>recvfrom\<close>
  for a datagram that has not arrived yet.\<close>

datatype status = Exited int | Uncaught py_exception | Blocked

subsection \<open>Start-up\<close>

text \<open>\<open>sock.bind(("", port))\<close>: the socket module refuses a port outside \<open>0..65535\<close>
  with \<open>OverflowError\<close> before any system call; otherwise the system call is made and
  fails with \<open>OSError\<close> when the host refuses it. The result is the events and the
  exception raised, if any.\<close>

definition sock_bind :: "host \<Rightarrow> int \<Rightarrow> event list \<times> py_exception option" where
  "sock_bind h port =
     (if port < 0 \<or> 65535 < port then ([], Some OverflowError)
      else if bind_ok h port then ([EvBind port], None)
      else ([EvBind port], Some OSError))"

text \<open>The body of the \<open>try\<close> of lines 11-12: \<open>sock.bind(("", int(sys.argv[2])))\<close>.\<close>

definition try_bind :: "host \<Rightarrow> py_str list \<Rightarrow> event list \<times> py_exception option" where
  "try_bind h argv =
     (case argv_get argv 2 of
        Inl e \<Rightarrow> ([], Some e)
      | Inr a \<Rightarrow>
          (case py_int a of
             Inl e \<Rightarrow> ([], Some e)
           | Inr port \<Rightarrow> sock_bind h port))"

subsection \<open>The relay loop\<close>

text \<open>
  One iteration meets one \<open>step\<close> of the outside world: what \<open>sock.recvfrom\<close> yields
  (a datagram as its sender sent it, with the sender's address and port, or an exception),
  and the exception \<open>send\<close> raises, if any.
\<close>

datatype recv_outcome = Datagram bytes py_str int | RecvRaises py_exception

type_synonym step = "recv_outcome \<times> py_exception option"

text \<open>\<open>sock.recvfrom(bufsize)\<close> on a datagram socket hands over at most \<open>bufsize\<close> bytes
  of the datagram; the rest of it is discarded.\<close>

definition recvfrom :: "nat \<Rightarrow> recv_outcome \<Rightarrow> py_exception + (bytes \<times> py_str \<times> int)" where
  "recvfrom bufsize r =
     (case r of
        RecvRaises e \<Rightarrow> Inl e
      | Datagram payload a p \<Rightarrow> Inr (take bufsize payload, a, p))"

text \<open>Lines 21-22 in the order Python evaluates them: the IP layer is made, then
  \<open>int(sys.argv[2])\<close> is evaluated (again in every iteration) for the UDP layer, then the
  packet is turned into bytes and read back.\<close>

definition build_packet ::
    "host \<Rightarrow> py_str list \<Rightarrow> py_str \<Rightarrow> bytes \<Rightarrow> py_str \<Rightarrow> int \<Rightarrow> py_exception + ip_packet" where
  "build_packet h argv destination_ip data src_ip src_port =
     (case IP_layer h destination_ip src_ip of
        Inl e \<Rightarrow> Inl e
      | Inr (d, s) \<Rightarrow>
          (case argv_get argv 2 of
             Inl e \<Rightarrow> Inl e
           | Inr a \<Rightarrow>
               (case py_int a of
                  Inl e \<Rightarrow> Inl e
                | Inr dport \<Rightarrow>
                    (case raw \<lparr>ip_dst = d, ip_src = s, udp_dport = dport,
                               udp_sport = src_port, load = data\<rparr> of
                       Inl e \<Rightarrow> Inl e
                     | Inr w \<Rightarrow> Inr (IP_read h w)))))"

text \<open>Lines 18-24, the body of the loop: the events of one iteration and the exception
  that ends it, if any.\<close>

definition loop_body ::
    "host \<Rightarrow> py_str list \<Rightarrow> py_str \<Rightarrow> step \<Rightarrow> event list \<times> py_exception option" where
  "loop_body h argv destination_ip st =
     (case recvfrom 4096 (fst st) of
        Inl e \<Rightarrow> ([EvRecvfrom 4096], Some e)
      | Inr (data, src_ip, src_port) \<Rightarrow>
          (let log = EvStdout [PyBytes data, PyStr src_ip, PyInt src_port] in
           case build_packet h argv destination_ip data src_ip src_port of
             Inl e \<Rightarrow> ([EvRecvfrom 4096, log], Some e)
           | Inr pkt \<Rightarrow> ([EvRecvfrom 4096, log, EvSend pkt], snd st)))"

text \<open>Line 17, \<open>while 1\<close>, over the steps that have happened so far: when they are used
  up the loop is waiting in its next \<open>recvfrom\<close>.\<close>

fun relay_loop ::
    "host \<Rightarrow> py_str list \<Rightarrow> py_str \<Rightarrow> step list \<Rightarrow> event list \<times> status" where
  "relay_loop h argv destination_ip [] = ([EvRecvfrom 4096], Blocked)"
| "relay_loop h argv destination_ip (st # sts) =
     (case loop_body h argv destination_ip st of
        (evs, Some e) \<Rightarrow> (evs, Uncaught e)
      | (evs, None) \<Rightarrow>
          (case relay_loop h argv destination_ip sts of
             (tr, fin) \<Rightarrow> (evs @ tr, fin)))"

text \<open>The same loop over an endless supply of steps: the exception that ends it, or
  \<open>None\<close> when it never ends.\<close>

partial_function (option) relay_forever ::
    "host \<Rightarrow> py_str list \<Rightarrow> py_str \<Rightarrow> (nat \<Rightarrow> step) \<Rightarrow> nat \<Rightarrow> py_exception option" where
  "relay_forever h argv destination_ip future n =
     (case snd (loop_body h argv destination_ip (future n)) of
        Some e \<Rightarrow> Some e
      | None \<Rightarrow> relay_forever h argv destination_ip future (Suc n))"

subsection \<open>The script\<close>

definition main :: "host \<Rightarrow> py_str list \<Rightarrow> step list \<Rightarrow> event list \<times> status" where
  "main h argv steps =
     (case argv_get argv 1 of
        Inl e \<Rightarrow> ([], Uncaught e)
      | Inr destination_ip \<Rightarrow>
          (case try_bind h argv of
             (evs, Some e) \<Rightarrow>
               if is_socket_error e
               then (evs @ [EvStdout [PyStr (ascii ''Bind failed.'')]], Exited 1)
               else (evs, Uncaught e)
           | (evs, None) \<Rightarrow>
               (case relay_loop h argv destination_ip steps of
                  (tr, fin) \<Rightarrow>
                    (evs @ [EvStdout [PyStr (ascii ''Socket activated'')]] @ tr, fin))))"

text \<open>The packets handed to \<open>send\<close>, in the order of the calls.\<close>

fun sent :: "event list \<Rightarrow> ip_packet list" where
  "sent [] = []"
| "sent (EvSend w # evs) = w # sent evs"
| "sent (_ # evs) = sent evs"

text \<open>The lines written by \<open>print\<close>, in order.\<close>

fun logged :: "event list \<Rightarrow> py_value list list" where
  "logged [] = []"
| "logged (EvStdout vs # evs) = vs # logged evs"
| "logged (_ # evs) = logged evs"

subsection \<open>Concrete runs\<close>

text \<open>The relay is started with destination \<open>10.0.0.5\<close> and port \<open>9000\<close> on a host
  whose packet library binds no layer to the ports in play; a datagram \<open>b"hello"\<close>
  arrives from \<open>192.168.1.20:5555\<close>, a second one, \<open>b"world"\<close>, from port \<open>5556\<close> of the
  same sender.\<close>

definition scenario_host :: host where
  "scenario_host =
     \<lparr>bind_ok = (\<lambda>p. True),
      h2i = (\<lambda>s. if s = ascii ''10.0.0.5'' then Some (10, 0, 0, 5)
                 else if s = ascii ''192.168.1.20'' then Some (192, 168, 1, 20)
                 else None),
      reencode = (\<lambda>sport dport payload. payload)\<rparr>"

definition busy_host :: host where
  "busy_host = scenario_host\<lparr>bind_ok := (\<lambda>p. False)\<rparr>"

definition scenario_argv :: "py_str list" where
  "scenario_argv = [ascii ''udp_forward.py'', ascii ''10.0.0.5'', ascii ''9000'']"

definition hello :: bytes where
  "hello = [0x68, 0x65, 0x6C, 0x6C, 0x6F]"

definition scenario_step :: step where
  "scenario_step = (Datagram hello (ascii ''192.168.1.20'') 5555, None)"

definition world :: bytes where
  "world = [0x77, 0x6F, 0x72, 0x6C, 0x64]"

definition second_step :: step where
  "second_step = (Datagram world (ascii ''192.168.1.20'') 5556, None)"

definition scenario_packet :: ip_packet where
  "scenario_packet =
     \<lparr>pkt_src = [192, 168, 1, 20], pkt_dst = [10, 0, 0, 5],
      pkt_sport = 5555, pkt_dport = 9000, pkt_payload = hello\<rparr>"

definition second_packet :: ip_packet where
  "second_packet =
     \<lparr>pkt_src = [192, 168, 1, 20], pkt_dst = [10, 0, 0, 5],
      pkt_sport = 5556, pkt_dport = 9000, pkt_payload = world\<rparr>"

text \<open>The bytes \<open>raw\<close> gives for the first datagram's packet.\<close>

definition scenario_wire :: bytes where
  "scenario_wire =
     [69, 0, 0, 33, 0, 1, 0, 0, 64, 17, 175, 10, 192, 168, 1, 20, 10, 0, 0, 5,
      21, 179, 35, 40, 0, 13, 183, 101, 104, 101, 108, 108, 111]"

text \<open>
  A host whose packet library binds the SNMP layer to UDP port 161, as scapy does. That
  layer reads the two bytes \<open>30 80\<close> (an ASN.1 sequence header with the indefinite
  length form) as a sequence without content and writes it as \<open>30 00\<close>; what follows the
  header is carried along as it is. \<open>snmp_host\<close> does this and leaves every other payload
  alone.
\<close>

definition snmp_reencode :: "nat \<Rightarrow> nat \<Rightarrow> bytes \<Rightarrow> bytes" where
  "snmp_reencode sport dport payload =
     (if sport = 161 \<or> dport = 161
      then (case payload of
              a # b # rest \<Rightarrow> if a = 0x30 \<and> b = 0x80 then 0x30 # 0x00 # rest else payload
            | _ \<Rightarrow> payload)
      else payload)"

definition snmp_host :: host where
  "snmp_host = scenario_host\<lparr>reencode := snmp_reencode\<rparr>"

definition snmp_step :: step where
  "snmp_step = (Datagram [0x30, 0x80] (ascii ''192.168.1.20'') 161, None)"

definition oversized_snmp_step :: step where
  "oversized_snmp_step =
     (Datagram (0x30 # 0x80 # replicate 4998 0x41) (ascii ''192.168.1.20'') 161, None)"

section \<open>Properties\<close>

subsection \<open>The bytes of a built packet\<close>

lemma unat_byte_of_nat: "n < 256 \<Longrightarrow> unat (of_nat n :: byte) = n"
  by (simp add: unat_of_nat)

lemma rd16_be16: "n < 65536 \<Longrightarrow> rd16 (be16 n @ rest) = n"
proof -
  assume n: "n < 65536"
  then have "n div 256 < 256" by simp
  then have hi: "unat (of_nat (n div 256) :: byte) = n div 256" by (rule unat_byte_of_nat)
  have lo: "unat (of_nat (n mod 256) :: byte) = n mod 256" by (simp add: unat_byte_of_nat)
  show ?thesis by (simp add: rd16_def be16_def hi lo)
qed

lemma length_be16: "length (be16 n) = 2"
  by (simp add: be16_def)

lemma ip_header_layout:
  "ip_header tlen s d = [0x45, 0] @ be16 tlen @ be16 1 @ be16 0 @ [64, 17]
     @ be16 (checksum (ip_header_fields tlen 0 s d)) @ addr_bytes s @ addr_bytes d"
  by (simp add: ip_header_def ip_header_fields_def)

lemma wire_fields:
  assumes "tlen < 65536" "sp < 65536" "dp < 65536" "8 + length pl < 65536"
    and w_def: "w = ip_header tlen s d @ udp_datagram s d sp dp pl"
  shows "wire_ip_len w = tlen" "wire_ip_proto w = Some 17"
    "wire_ip_src w = addr_bytes s" "wire_ip_dst w = addr_bytes d"
    "wire_udp_sport w = sp" "wire_udp_dport w = dp"
    "wire_udp_len w = 8 + length pl" "wire_payload w = pl"
proof -
  obtain c1 c2 where c: "be16 (checksum (ip_header_fields tlen 0 s d)) = [c1, c2]"
    by (simp add: be16_def)
  obtain t1 t2 where t: "be16 tlen = [t1, t2]" by (simp add: be16_def)
  obtain a1 a2 a3 a4 where a: "addr_bytes s = [a1, a2, a3, a4]"
    by (cases s) (simp add: addr_bytes_def)
  obtain b1 b2 b3 b4 where b: "addr_bytes d = [b1, b2, b3, b4]"
    by (cases d) (simp add: addr_bytes_def)
  have hdr: "ip_header tlen s d =
      [0x45, 0] @ be16 tlen @ [0, 1, 0, 0, 64, 17, c1, c2, a1, a2, a3, a4, b1, b2, b3, b4]"
    by (simp add: ip_header_layout c a b) (simp add: be16_def)
  have udp: "udp_datagram s d sp dp pl =
      be16 sp @ be16 dp @ be16 (8 + length pl) @ be16 (udp_checksum s d sp dp pl) @ pl"
    by (simp add: udp_datagram_def udp_header_fields_def)
  show "wire_ip_len w = tlen"
    using rd16_be16 [OF assms(1)] by (simp add: w_def wire_ip_len_def hdr)
  show "wire_ip_proto w = Some 17"
    by (simp add: w_def wire_ip_proto_def hdr t)
  show "wire_ip_src w = addr_bytes s"
    by (simp add: w_def wire_ip_src_def hdr t a)
  show "wire_ip_dst w = addr_bytes d"
    by (simp add: w_def wire_ip_dst_def hdr t b)
  show "wire_udp_sport w = sp"
    using rd16_be16 [OF assms(2)] by (simp add: w_def wire_udp_sport_def hdr t udp)
  show "wire_udp_dport w = dp"
    using rd16_be16 [OF assms(3)] by (simp add: w_def wire_udp_dport_def hdr t udp length_be16)
  show "wire_udp_len w = 8 + length pl"
    using rd16_be16 [OF assms(4)]
    by (simp add: w_def wire_udp_len_def hdr t udp length_be16)
  show "wire_payload w = pl"
    by (simp add: w_def wire_payload_def hdr t udp length_be16)
qed

text \<open>What a successful \<open>raw\<close> says about its argument and its result.\<close>

lemma raw_InrD:
  assumes "raw p = Inr w"
  shows "0 \<le> udp_sport p \<and> udp_sport p \<le> 65535
       \<and> 0 \<le> udp_dport p \<and> udp_dport p \<le> 65535
       \<and> 28 + length (load p) \<le> 65535
       \<and> w = ip_header (28 + length (load p)) (ip_src p) (ip_dst p)
             @ udp_datagram (ip_src p) (ip_dst p) (nat (udp_sport p)) (nat (udp_dport p))
                 (load p)"
  using assms by (auto simp: raw_def split: if_splits)

lemma raw_wire:
  assumes "raw p = Inr w"
  shows "wire_ip_src w = addr_bytes (ip_src p) \<and> wire_ip_dst w = addr_bytes (ip_dst p)
       \<and> int (wire_udp_sport w) = udp_sport p \<and> int (wire_udp_dport w) = udp_dport p
       \<and> wire_payload w = load p"
proof -
  from raw_InrD [OF assms] have
    sp: "0 \<le> udp_sport p" "udp_sport p \<le> 65535"
    and dp: "0 \<le> udp_dport p" "udp_dport p \<le> 65535"
    and len: "28 + length (load p) \<le> 65535"
    and w: "w = ip_header (28 + length (load p)) (ip_src p) (ip_dst p)
             @ udp_datagram (ip_src p) (ip_dst p) (nat (udp_sport p)) (nat (udp_dport p))
                 (load p)"
    by simp_all
  have b: "28 + length (load p) < 65536" "nat (udp_sport p) < 65536"
    "nat (udp_dport p) < 65536" "8 + length (load p) < 65536"
    using sp dp len by auto
  note f = wire_fields [OF b w]
  have "int (wire_udp_sport w) = udp_sport p" "int (wire_udp_dport w) = udp_dport p"
    using f(5,6) sp dp by simp_all
  with f(3,4,8) show ?thesis by simp
qed

subsection \<open>One iteration\<close>

text \<open>What a packet that was built says about the arguments, and what it carries: the
  addresses the two host strings resolve to, the two ports, and as payload what the
  library writes back for the data.\<close>

lemma build_packet_fields:
  assumes "build_packet h argv destination_ip data src_ip src_port = Inr p"
  shows "\<exists>a port s d. argv_get argv 2 = Inr a \<and> py_int a = Inr port
           \<and> h2i h src_ip = Some s \<and> h2i h destination_ip = Some d
           \<and> pkt_src p = addr_bytes s \<and> pkt_dst p = addr_bytes d
           \<and> int (pkt_sport p) = src_port \<and> int (pkt_dport p) = port
           \<and> pkt_payload p = reencode h (pkt_sport p) (pkt_dport p) data"
proof -
  from assms obtain d s where ip: "IP_layer h destination_ip src_ip = Inr (d, s)"
    by (auto simp: build_packet_def split: sum.splits)
  then have r: "h2i h destination_ip = Some d" "h2i h src_ip = Some s"
    by (auto simp: IP_layer_def split: option.splits)
  from assms ip obtain a port w where a: "argv_get argv 2 = Inr a" and p: "py_int a = Inr port"
    and w: "raw \<lparr>ip_dst = d, ip_src = s, udp_dport = port, udp_sport = src_port,
                   load = data\<rparr> = Inr w"
    and pkt: "p = IP_read h w"
    by (auto simp: build_packet_def split: sum.splits)
  from raw_wire [OF w] pkt have "pkt_src p = addr_bytes s" "pkt_dst p = addr_bytes d"
    "int (pkt_sport p) = src_port" "int (pkt_dport p) = port"
    "pkt_payload p = reencode h (pkt_sport p) (pkt_dport p) data"
    by (simp_all add: IP_read_def)
  with a p r show ?thesis by blast
qed

text \<open>The three ways an iteration can go.\<close>

lemma loop_body_cases:
  assumes "loop_body h argv destination_ip st = (evs, r)"
  obtains
    (recv_raises) e where "fst st = RecvRaises e" "evs = [EvRecvfrom 4096]" "r = Some e"
  | (build_raises) B S P e where "fst st = Datagram B S P"
      "build_packet h argv destination_ip (take 4096 B) S P = Inl e"
      "evs = [EvRecvfrom 4096, EvStdout [PyBytes (take 4096 B), PyStr S, PyInt P]]"
      "r = Some e"
  | (sends) B S P p where "fst st = Datagram B S P"
      "build_packet h argv destination_ip (take 4096 B) S P = Inr p"
      "evs = [EvRecvfrom 4096, EvStdout [PyBytes (take 4096 B), PyStr S, PyInt P], EvSend p]"
      "r = snd st"
proof (cases "fst st")
  case (RecvRaises e)
  with assms have "evs = [EvRecvfrom 4096]" "r = Some e"
    by (auto simp: loop_body_def recvfrom_def)
  with RecvRaises show ?thesis by (rule recv_raises)
next
  case d: (Datagram B S P)
  show ?thesis
  proof (cases "build_packet h argv destination_ip (take 4096 B) S P")
    case (Inl e)
    with assms d
    have "evs = [EvRecvfrom 4096, EvStdout [PyBytes (take 4096 B), PyStr S, PyInt P]]"
      "r = Some e"
      by (auto simp: loop_body_def recvfrom_def)
    with d Inl show ?thesis by (rule build_raises)
  next
    case (Inr w)
    with assms d
    have "evs = [EvRecvfrom 4096, EvStdout [PyBytes (take 4096 B), PyStr S, PyInt P], EvSend w]"
      "r = snd st"
      by (auto simp: loop_body_def recvfrom_def)
    with d Inr show ?thesis by (rule sends)
  qed
qed

subsection \<open>The loop\<close>

lemma sent_append: "sent (xs @ ys) = sent xs @ sent ys"
  by (induction xs rule: sent.induct) simp_all

lemma logged_append: "logged (xs @ ys) = logged xs @ logged ys"
  by (induction xs rule: logged.induct) simp_all

lemma relay_loop_raises:
  "loop_body h argv destination_ip st = (evs, Some e) \<Longrightarrow>
   relay_loop h argv destination_ip (st # sts) = (evs, Uncaught e)"
  by simp

lemma relay_loop_goes_on:
  "loop_body h argv destination_ip st = (evs, None) \<Longrightarrow>
   relay_loop h argv destination_ip sts = (tr, fin) \<Longrightarrow>
   relay_loop h argv destination_ip (st # sts) = (evs @ tr, fin)"
  by simp

text \<open>An iteration that does not raise has received a datagram and sent its packet.\<close>

lemma loop_body_None:
  assumes "loop_body h argv destination_ip st = (evs, None)"
  obtains B S P w where "fst st = Datagram B S P" "snd st = None"
    "build_packet h argv destination_ip (take 4096 B) S P = Inr w"
    "evs = [EvRecvfrom 4096, EvStdout [PyBytes (take 4096 B), PyStr S, PyInt P], EvSend w]"
  using assms by (cases rule: loop_body_cases) auto

text \<open>The loop always begins with a receive call.\<close>

lemma relay_loop_starts_with_recvfrom:
  "\<exists>tr'. fst (relay_loop h argv destination_ip steps) = EvRecvfrom 4096 # tr'"
proof (cases steps)
  case Nil
  then show ?thesis by simp
next
  case (Cons st sts)
  obtain evs r where lb: "loop_body h argv destination_ip st = (evs, r)"
    by (cases "loop_body h argv destination_ip st")
  then obtain evs' where "evs = EvRecvfrom 4096 # evs'"
    by (cases rule: loop_body_cases) simp_all
  with lb Cons show ?thesis
    by (cases r) (simp_all split: prod.splits)
qed

text \<open>Every packet sent belongs to a step that delivered a datagram, and the receive
  call of that step has been made.\<close>

lemma relay_loop_sent_index:
  assumes "relay_loop h argv destination_ip steps = (tr, fin)" "j < length (sent tr)"
  shows "j < length steps \<and> j < count_list tr (EvRecvfrom 4096)
           \<and> (\<exists>B S P. fst (steps ! j) = Datagram B S P)"
  using assms
proof (induction steps arbitrary: tr fin j)
  case Nil
  then show ?case by auto
next
  case (Cons st sts)
  obtain evs r where lb: "loop_body h argv destination_ip st = (evs, r)"
    by (cases "loop_body h argv destination_ip st")
  show ?case
  proof (cases r)
    case (Some e)
    with lb relay_loop_raises Cons.prems(1) have tr: "tr = evs" by fastforce
    from lb show ?thesis
    proof (cases rule: loop_body_cases)
      case (recv_raises e')
      with tr Cons.prems(2) show ?thesis by simp
    next
      case (build_raises B S P e')
      with tr Cons.prems(2) show ?thesis by simp
    next
      case (sends B S P w)
      with tr Cons.prems(2) show ?thesis by simp
    qed
  next
    case None
    obtain tr' fin' where rl: "relay_loop h argv destination_ip sts = (tr', fin')"
      by (cases "relay_loop h argv destination_ip sts")
    from relay_loop_goes_on [OF lb [unfolded None] rl] Cons.prems(1)
    have tr: "tr = evs @ tr'" by simp
    from lb [unfolded None] obtain B S P w where st: "fst st = Datagram B S P"
      and evs: "evs = [EvRecvfrom 4096, EvStdout [PyBytes (take 4096 B), PyStr S, PyInt P],
                       EvSend w]"
      by (rule loop_body_None)
    show ?thesis
    proof (cases j)
      case 0
      with st tr evs show ?thesis by simp
    next
      case (Suc k)
      with Cons.prems(2) tr evs have "k < length (sent tr')" by (simp add: sent_append)
      from Cons.IH [OF rl this] Suc tr evs show ?thesis by simp
    qed
  qed
qed

text \<open>Where the iteration of step \<open>j\<close> sits in the trace: after exactly \<open>j\<close> receive
  calls, \<open>j\<close> log lines and \<open>j\<close> sent packets; its receive call is followed at once by
  its log line, and then either the build fails and the run is over, or the packet is sent.\<close>

lemma relay_loop_iteration:
  assumes "relay_loop h argv destination_ip steps = (tr, fin)"
    and "j < length steps" "fst (steps ! j) = Datagram B S P"
    and "j < count_list tr (EvRecvfrom 4096)"
  shows "\<exists>pre post.
           tr = pre @ [EvRecvfrom 4096, EvStdout [PyBytes (take 4096 B), PyStr S, PyInt P]] @ post
         \<and> count_list pre (EvRecvfrom 4096) = j \<and> length (sent pre) = j
         \<and> length (logged pre) = j
         \<and> (case build_packet h argv destination_ip (take 4096 B) S P of
               Inl e \<Rightarrow> post = [] \<and> fin = Uncaught e
             | Inr w \<Rightarrow> \<exists>rest. post = EvSend w # rest
                     \<and> (rest = [] \<or> (\<exists>rest'. rest = EvRecvfrom 4096 # rest')))"
  using assms
proof (induction steps arbitrary: tr fin j)
  case Nil
  then show ?case by simp
next
  case (Cons st sts)
  let ?log = "EvStdout [PyBytes (take 4096 B), PyStr S, PyInt P]"
  obtain evs r where lb: "loop_body h argv destination_ip st = (evs, r)"
    by (cases "loop_body h argv destination_ip st")
  obtain tr' fin' where rl: "relay_loop h argv destination_ip sts = (tr', fin')"
    by (cases "relay_loop h argv destination_ip sts")
  show ?case
  proof (cases r)
    case (Some e)
    with lb relay_loop_raises Cons.prems(1) have tr: "tr = evs" and fin: "fin = Uncaught e"
      by fastforce+
    from lb show ?thesis
    proof (cases rule: loop_body_cases)
      case (recv_raises e')
      with tr Cons.prems(2-4) show ?thesis by (cases j) simp_all
    next
      case (build_raises B' S' P' e')
      with tr Cons.prems(2-4) have j: "j = 0" and eq: "B' = B" "S' = S" "P' = P"
        by (cases j; simp)+
      from build_raises eq Some fin tr
      have "tr = [] @ [EvRecvfrom 4096, ?log] @ []" "fin = Uncaught e'"
        "build_packet h argv destination_ip (take 4096 B) S P = Inl e'"
        by simp_all
      with j show ?thesis by (intro exI [of _ "[]"]) simp
    next
      case (sends B' S' P' w)
      with tr Cons.prems(2-4) have j: "j = 0" and eq: "B' = B" "S' = S" "P' = P"
        by (cases j; simp)+
      from sends eq tr
      have "tr = [] @ [EvRecvfrom 4096, ?log] @ [EvSend w]"
        "build_packet h argv destination_ip (take 4096 B) S P = Inr w"
        by simp_all
      with j show ?thesis by (intro exI [of _ "[]"] exI [of _ "[EvSend w]"]) simp
    qed
  next
    case None
    from relay_loop_goes_on [OF lb [unfolded None] rl] Cons.prems(1)
    have tr: "tr = evs @ tr'" and fin: "fin = fin'" by simp_all
    from lb [unfolded None] obtain B' S' P' w where st: "fst st = Datagram B' S' P'"
      and b: "build_packet h argv destination_ip (take 4096 B') S' P' = Inr w"
      and evs: "evs = [EvRecvfrom 4096, EvStdout [PyBytes (take 4096 B'), PyStr S', PyInt P'],
                       EvSend w]"
      by (rule loop_body_None)
    show ?thesis
    proof (cases j)
      case 0
      with Cons.prems(3) st have eq: "B' = B" "S' = S" "P' = P" by simp_all
      from tr evs eq have "tr = [] @ [EvRecvfrom 4096, ?log] @ (EvSend w # tr')" by simp
      moreover from relay_loop_starts_with_recvfrom [of h argv destination_ip sts] rl
      have "\<exists>rest'. tr' = EvRecvfrom 4096 # rest'" by simp
      ultimately show ?thesis using b eq 0
        by (intro exI [of _ "[]"] exI [of _ "EvSend w # tr'"]) simp
    next
      case (Suc k)
      with Cons.prems(2-4) tr evs
      have k: "k < length sts" "fst (sts ! k) = Datagram B S P"
        "k < count_list tr' (EvRecvfrom 4096)"
        by simp_all
      from Cons.IH [OF rl k] obtain pre post where
        d: "tr' = pre @ [EvRecvfrom 4096, ?log] @ post"
        and c: "count_list pre (EvRecvfrom 4096) = k" "length (sent pre) = k"
          "length (logged pre) = k"
        and p: "(case build_packet h argv destination_ip (take 4096 B) S P of
             Inl e \<Rightarrow> post = [] \<and> fin' = Uncaught e
           | Inr w \<Rightarrow> \<exists>rest. post = EvSend w # rest
                     \<and> (rest = [] \<or> (\<exists>rest'. rest = EvRecvfrom 4096 # rest')))"
        by blast
      from tr d have "tr = (evs @ pre) @ [EvRecvfrom 4096, ?log] @ post"
        by simp
      moreover from c evs Suc have "count_list (evs @ pre) (EvRecvfrom 4096) = j"
        "length (sent (evs @ pre)) = j" "length (logged (evs @ pre)) = j"
        by (simp_all add: sent_append logged_append)
      ultimately show ?thesis using p fin by blast
    qed
  qed
qed

text \<open>The same, seen from the \<open>j\<close>-th packet sent.\<close>

lemma relay_loop_sent:
  assumes run: "relay_loop h argv destination_ip steps = (tr, fin)"
    and j: "j < length (sent tr)" and st: "fst (steps ! j) = Datagram B S P"
  shows "\<exists>pre rest.
           tr = pre @ [EvRecvfrom 4096, EvStdout [PyBytes (take 4096 B), PyStr S, PyInt P],
                       EvSend (sent tr ! j)] @ rest
         \<and> count_list pre (EvRecvfrom 4096) = j \<and> sent pre = take j (sent tr)
         \<and> length (logged pre) = j
         \<and> build_packet h argv destination_ip (take 4096 B) S P = Inr (sent tr ! j)"
proof -
  from relay_loop_sent_index [OF run j]
  have "j < length steps" "j < count_list tr (EvRecvfrom 4096)" by simp_all
  from relay_loop_iteration [OF run this(1) st this(2)] obtain pre post where
    d: "tr = pre @ [EvRecvfrom 4096, EvStdout [PyBytes (take 4096 B), PyStr S, PyInt P]] @ post"
    and c: "count_list pre (EvRecvfrom 4096) = j" "length (sent pre) = j"
      "length (logged pre) = j"
    and p: "(case build_packet h argv destination_ip (take 4096 B) S P of
               Inl e \<Rightarrow> post = [] \<and> fin = Uncaught e
             | Inr w \<Rightarrow> \<exists>rest. post = EvSend w # rest
                     \<and> (rest = [] \<or> (\<exists>rest'. rest = EvRecvfrom 4096 # rest')))"
    by blast
  from d have s: "sent tr = sent pre @ sent post" by (simp add: sent_append)
  with j c(2) have "sent post \<noteq> []" by auto
  then have "post \<noteq> []" by auto
  with p obtain w rest where b: "build_packet h argv destination_ip (take 4096 B) S P = Inr w"
    and post: "post = EvSend w # rest"
    by (cases "build_packet h argv destination_ip (take 4096 B) S P") auto
  from s post c(2) have w: "sent tr ! j = w" and t: "sent pre = take j (sent tr)"
    by (simp_all add: nth_append)
  from d post w have "tr = pre @ [EvRecvfrom 4096,
      EvStdout [PyBytes (take 4096 B), PyStr S, PyInt P], EvSend (sent tr ! j)] @ rest"
    by simp
  with c t b w show ?thesis by blast
qed

subsection \<open>Start-up\<close>

lemma py_int_Inl: "py_int s = Inl e \<Longrightarrow> e = ValueError"
  by (auto simp: py_int_def Let_def split: option.splits)

text \<open>Three readings of \<open>int\<close> that differ from a plain "strip, then digits": a non-breaking
  space counts as white space, the ASCII separator \<open>0x1F\<close> does not, and a numeral of
  more than 4300 digits is refused.\<close>

lemma py_int_nbsp_9000: "py_int (0xA0 # ascii ''9000'') = Inr 9000"
  by (simp add: py_int_def ascii_def to_ascii_def unicode_space_def is_space_def
        numeral_value_def in_numeral_def is_digit_def digits_value_def)

lemma py_int_9000_separator: "py_int (ascii ''9000'' @ [0x1F]) = Inl ValueError"
  by (simp add: py_int_def ascii_def to_ascii_def is_space_def numeral_value_def
        in_numeral_def is_digit_def)

lemma double_underscore_replicate: "c \<noteq> 95 \<Longrightarrow> \<not> double_underscore (replicate n c)"
proof (induction n)
  case 0
  show ?case by simp
next
  case (Suc n)
  then show ?case by (cases n) simp_all
qed

lemma py_int_digit_limit:
  "py_int (replicate n 49) = (if n = 0 \<or> 4300 < n then Inl ValueError
                              else Inr (int (digits_value (replicate n 49))))"
proof (cases n)
  case 0
  then show ?thesis by (simp add: py_int_def)
next
  case (Suc m)
  have t: "map to_ascii (replicate n 49) = replicate n 49" by (simp add: to_ascii_def)
  have d: "dropWhile is_space (replicate n 49) = replicate n 49"
    by (simp add: is_space_def)
  have nv: "numeral_value (replicate n 49)
              = (if 4300 < n then None else Some (digits_value (replicate n 49)))"
    using Suc double_underscore_replicate [of 49 n]
    by (simp add: numeral_value_def Let_def in_numeral_def is_digit_def last_replicate
          del: replicate.simps)
  have c: "(case replicate n 49 of [] \<Rightarrow> None
            | c # cs \<Rightarrow> if c = 45 then A cs else if c = 43 then B cs else C) = C"
    for A B :: "nat list \<Rightarrow> int option" and C
    using Suc by simp
  from Suc show ?thesis
    unfolding py_int_def t d Let_def c nv by simp
qed

lemma argv_get_Inl: "argv_get argv i = Inl e \<Longrightarrow> e = IndexError \<and> length argv \<le> i"
  by (auto simp: argv_get_def split: if_splits)

lemma argv_get_Cons3:
  "argv_get (prog # destination_ip # listen_port # extra) 1 = Inr destination_ip"
  "argv_get (prog # destination_ip # listen_port # extra) 2 = Inr listen_port"
  "argv_get (prog # destination_ip # listen_port # extra) (Suc 0) = Inr destination_ip"
  by (simp_all add: argv_get_def)

text \<open>The socket is bound exactly when the second argument reads as a port number the
  host lets the process bind.\<close>

lemma try_bind_bound:
  assumes "argv_get argv 2 = Inr a" "py_int a = Inr port" "0 \<le> port" "port \<le> 65535"
    and "bind_ok h port"
  shows "try_bind h argv = ([EvBind port], None)"
  using assms by (simp add: try_bind_def sock_bind_def)

lemma try_bind_refused:
  assumes "argv_get argv 2 = Inr a" "py_int a = Inr port" "0 \<le> port" "port \<le> 65535"
    and "\<not> bind_ok h port"
  shows "try_bind h argv = ([EvBind port], Some OSError)"
  using assms by (simp add: try_bind_def sock_bind_def)

lemma try_bind_cases:
  assumes "try_bind h argv = (evs, r)"
  obtains
    (crashed) e where "evs = []" "r = Some e" "e \<noteq> OSError"
  | (refused) a port where "argv_get argv 2 = Inr a" "py_int a = Inr port"
      "0 \<le> port" "port \<le> 65535" "\<not> bind_ok h port" "evs = [EvBind port]" "r = Some OSError"
  | (bound) a port where "argv_get argv 2 = Inr a" "py_int a = Inr port"
      "0 \<le> port" "port \<le> 65535" "bind_ok h port" "evs = [EvBind port]" "r = None"
proof (cases "argv_get argv 2")
  case (Inl e)
  with assms argv_get_Inl [OF Inl] have "evs = []" "r = Some e" "e \<noteq> OSError"
    by (auto simp: try_bind_def)
  then show ?thesis by (rule crashed)
next
  case a: (Inr a)
  show ?thesis
  proof (cases "py_int a")
    case (Inl e)
    with assms a py_int_Inl [OF Inl] have "evs = []" "r = Some e" "e \<noteq> OSError"
      by (auto simp: try_bind_def)
    then show ?thesis by (rule crashed)
  next
    case p: (Inr port)
    show ?thesis
    proof (cases "port < 0 \<or> 65535 < port")
      case True
      with assms a p have "evs = []" "r = Some OverflowError" "OverflowError \<noteq> OSError"
        by (auto simp: try_bind_def sock_bind_def)
      then show ?thesis by (rule crashed)
    next
      case False
      then have range: "0 \<le> port" "port \<le> 65535" by simp_all
      show ?thesis
      proof (cases "bind_ok h port")
        case True
        from try_bind_bound [OF a p range True] assms
        have "evs = [EvBind port]" "r = None" by simp_all
        with a p range True show ?thesis by (rule bound)
      next
        case False
        from try_bind_refused [OF a p range False] assms
        have "evs = [EvBind port]" "r = Some OSError" by simp_all
        with a p range False show ?thesis by (rule refused)
      qed
    qed
  qed
qed

lemma main_started:
  assumes "argv_get argv 1 = Inr destination_ip" "try_bind h argv = ([EvBind port], None)"
  shows "main h argv steps =
           (EvBind port # EvStdout [PyStr (ascii ''Socket activated'')]
              # fst (relay_loop h argv destination_ip steps),
            snd (relay_loop h argv destination_ip steps))"
  using assms by (simp add: main_def split: prod.splits)

text \<open>The three ways the script can go: it dies before the socket is bound, the bind is
  refused, or the loop is entered.\<close>

lemma main_cases:
  assumes "main h argv steps = (tr, fin)"
  obtains
    (crashed) e where "tr = []" "fin = Uncaught e" "e \<noteq> OSError"
  | (refused) port where "tr = [EvBind port, EvStdout [PyStr (ascii ''Bind failed.'')]]"
      "fin = Exited 1"
  | (started) destination_ip a port tr' where "argv_get argv 1 = Inr destination_ip"
      "argv_get argv 2 = Inr a" "py_int a = Inr port" "0 \<le> port" "port \<le> 65535"
      "bind_ok h port" "relay_loop h argv destination_ip steps = (tr', fin)"
      "tr = EvBind port # EvStdout [PyStr (ascii ''Socket activated'')] # tr'"
proof (cases "argv_get argv 1")
  case (Inl e)
  with assms argv_get_Inl [OF Inl] have "tr = []" "fin = Uncaught e" "e \<noteq> OSError"
    by (auto simp: main_def)
  then show ?thesis by (rule crashed)
next
  case d: (Inr destination_ip)
  obtain evs r where tb: "try_bind h argv = (evs, r)" by (cases "try_bind h argv")
  from tb show ?thesis
  proof (cases rule: try_bind_cases)
    case (crashed e)
    with assms d tb have "tr = []" "fin = Uncaught e"
      by (auto simp: main_def is_socket_error_def)
    then show ?thesis using crashed(3) by (rule that(1))
  next
    case (refused a port)
    with assms d tb have "tr = [EvBind port, EvStdout [PyStr (ascii ''Bind failed.'')]]"
      "fin = Exited 1"
      by (auto simp: main_def is_socket_error_def)
    then show ?thesis by (rule that(2))
  next
    case (bound a port)
    with tb have "try_bind h argv = ([EvBind port], None)" by simp
    from main_started [OF d this, of steps] assms
    have "relay_loop h argv destination_ip steps = (fst (relay_loop h argv destination_ip steps), fin)"
      "tr = EvBind port # EvStdout [PyStr (ascii ''Socket activated'')]
              # fst (relay_loop h argv destination_ip steps)"
      by simp_all
    with d bound(1-5) show ?thesis by (rule that(3))
  qed
qed

subsection \<open>The whole run\<close>

text \<open>The loop never prints a line made of a single value.\<close>

lemma loop_body_no_single_line:
  "EvStdout [v] \<notin> set (fst (loop_body h argv destination_ip st))"
proof -
  obtain evs r where lb: "loop_body h argv destination_ip st = (evs, r)"
    by (cases "loop_body h argv destination_ip st")
  then have "EvStdout [v] \<notin> set evs"
    by (cases rule: loop_body_cases) simp_all
  with lb show ?thesis by simp
qed

lemma relay_loop_no_single_line:
  "EvStdout [v] \<notin> set (fst (relay_loop h argv destination_ip steps))"
proof (induction steps)
  case Nil
  show ?case by simp
next
  case (Cons st sts)
  from loop_body_no_single_line [of v h argv destination_ip st] Cons show ?case
    by (auto split: prod.splits option.splits)
qed

text \<open>The decomposition of the loop's trace, carried over to the whole run: the two
  start-up events come first, so one more line has been printed before step \<open>j\<close>.\<close>

lemma main_iteration:
  assumes run: "main h argv steps = (tr, fin)"
    and j: "j < length steps" "fst (steps ! j) = Datagram B S P"
    and reached: "j < count_list tr (EvRecvfrom 4096)"
  shows "\<exists>destination_ip pre post.
           argv_get argv 1 = Inr destination_ip
         \<and> tr = pre @ [EvRecvfrom 4096, EvStdout [PyBytes (take 4096 B), PyStr S, PyInt P]] @ post
         \<and> count_list pre (EvRecvfrom 4096) = j \<and> length (sent pre) = j
         \<and> length (logged pre) = Suc j
         \<and> (case build_packet h argv destination_ip (take 4096 B) S P of
               Inl e \<Rightarrow> post = [] \<and> fin = Uncaught e
             | Inr w \<Rightarrow> \<exists>rest. post = EvSend w # rest
                     \<and> (rest = [] \<or> (\<exists>rest'. rest = EvRecvfrom 4096 # rest')))"
  using run
proof (cases rule: main_cases)
  case (crashed e)
  with reached show ?thesis by simp
next
  case (refused port)
  with reached show ?thesis by simp
next
  case (started destination_ip a port tr')
  let ?log = "EvStdout [PyBytes (take 4096 B), PyStr S, PyInt P]"
  let ?start = "[EvBind port, EvStdout [PyStr (ascii ''Socket activated'')]]"
  from started(8) reached have "j < count_list tr' (EvRecvfrom 4096)" by simp
  from relay_loop_iteration [OF started(7) j this] obtain pre post where
    d: "tr' = pre @ [EvRecvfrom 4096, ?log] @ post"
    and c: "count_list pre (EvRecvfrom 4096) = j" "length (sent pre) = j"
      "length (logged pre) = j"
    and p: "(case build_packet h argv destination_ip (take 4096 B) S P of
               Inl e \<Rightarrow> post = [] \<and> fin = Uncaught e
             | Inr w \<Rightarrow> \<exists>rest. post = EvSend w # rest
                     \<and> (rest = [] \<or> (\<exists>rest'. rest = EvRecvfrom 4096 # rest')))"
    by blast
  from started(8) d have "tr = (?start @ pre) @ [EvRecvfrom 4096, ?log] @ post" by simp
  moreover from c have "count_list (?start @ pre) (EvRecvfrom 4096) = j"
    "length (sent (?start @ pre)) = j" "length (logged (?start @ pre)) = Suc j"
    by simp_all
  ultimately show ?thesis using started(1) p by blast
qed

lemma main_sent:
  assumes run: "main h argv steps = (tr, fin)"
    and j: "j < length (sent tr)" and st: "fst (steps ! j) = Datagram B S P"
  shows "\<exists>destination_ip pre rest.
           argv_get argv 1 = Inr destination_ip
         \<and> tr = pre @ [EvRecvfrom 4096, EvStdout [PyBytes (take 4096 B), PyStr S, PyInt P],
                       EvSend (sent tr ! j)] @ rest
         \<and> count_list pre (EvRecvfrom 4096) = j \<and> sent pre = take j (sent tr)
         \<and> length (logged pre) = Suc j
         \<and> build_packet h argv destination_ip (take 4096 B) S P = Inr (sent tr ! j)"
  using run
proof (cases rule: main_cases)
  case (crashed e)
  with j show ?thesis by simp
next
  case (refused port)
  with j show ?thesis by simp
next
  case (started destination_ip a port tr')
  let ?log = "EvStdout [PyBytes (take 4096 B), PyStr S, PyInt P]"
  let ?start = "[EvBind port, EvStdout [PyStr (ascii ''Socket activated'')]]"
  from started(8) have s: "sent tr = sent tr'" by simp
  with j have "j < length (sent tr')" by simp
  from relay_loop_sent [OF started(7) this st, folded s] obtain pre rest where
    d: "tr' = pre @ [EvRecvfrom 4096, ?log, EvSend (sent tr ! j)] @ rest"
    and c: "count_list pre (EvRecvfrom 4096) = j" "sent pre = take j (sent tr)"
      "length (logged pre) = j"
    and b: "build_packet h argv destination_ip (take 4096 B) S P = Inr (sent tr ! j)"
    by blast
  from started(8) d
  have "tr = (?start @ pre) @ [EvRecvfrom 4096, ?log, EvSend (sent tr ! j)] @ rest" by simp
  moreover from c have "count_list (?start @ pre) (EvRecvfrom 4096) = j"
    "sent (?start @ pre) = take j (sent tr)" "length (logged (?start @ pre)) = Suc j"
    by simp_all
  ultimately show ?thesis using started(1) b by blast
qed

text \<open>What the \<open>j\<close>-th packet sent carries.\<close>

lemma main_sent_fields:
  assumes run: "main h argv steps = (tr, fin)"
    and j: "j < length (sent tr)" and st: "fst (steps ! j) = Datagram B S P"
  shows "\<exists>destination_ip a port s d.
           argv_get argv 1 = Inr destination_ip \<and> argv_get argv 2 = Inr a
         \<and> py_int a = Inr port \<and> h2i h S = Some s \<and> h2i h destination_ip = Some d
         \<and> pkt_src (sent tr ! j) = addr_bytes s \<and> pkt_dst (sent tr ! j) = addr_bytes d
         \<and> int (pkt_sport (sent tr ! j)) = P \<and> int (pkt_dport (sent tr ! j)) = port
         \<and> pkt_payload (sent tr ! j)
             = reencode h (pkt_sport (sent tr ! j)) (pkt_dport (sent tr ! j)) (take 4096 B)"
proof -
  from main_sent [OF assms] obtain destination_ip where
    d: "argv_get argv 1 = Inr destination_ip"
    and b: "build_packet h argv destination_ip (take 4096 B) S P = Inr (sent tr ! j)"
    by blast
  from build_packet_fields [OF b] d show ?thesis by blast
qed

subsection \<open>When an iteration goes through\<close>

lemma raw_succeeds:
  assumes "0 \<le> udp_sport p" "udp_sport p \<le> 65535" "0 \<le> udp_dport p" "udp_dport p \<le> 65535"
    and "length (load p) \<le> 4096"
  shows "\<exists>w. raw p = Inr w"
  using assms by (simp add: raw_def)

lemma build_packet_succeeds:
  assumes "argv_get argv 2 = Inr a" "py_int a = Inr port" "0 \<le> port" "port \<le> 65535"
    and "h2i h S = Some s" "h2i h destination_ip = Some d" "0 \<le> P" "P \<le> 65535"
  shows "\<exists>p. build_packet h argv destination_ip (take 4096 B) S P = Inr p"
proof -
  have "\<exists>w. raw \<lparr>ip_dst = d, ip_src = s, udp_dport = port, udp_sport = P,
                   load = take 4096 B\<rparr> = Inr w"
    by (rule raw_succeeds) (simp_all add: assms)
  with assms(1,2,5,6) show ?thesis by (auto simp: build_packet_def IP_layer_def)
qed

lemma loop_body_completes:
  assumes "argv_get argv 2 = Inr a" "py_int a = Inr port" "0 \<le> port" "port \<le> 65535"
    and "h2i h S = Some s" "h2i h destination_ip = Some d" "0 \<le> P" "P \<le> 65535"
  shows "\<exists>p. loop_body h argv destination_ip (Datagram B S P, r) =
           ([EvRecvfrom 4096, EvStdout [PyBytes (take 4096 B), PyStr S, PyInt P], EvSend p], r)
         \<and> build_packet h argv destination_ip (take 4096 B) S P = Inr p"
proof -
  from build_packet_succeeds [OF assms] obtain p where
    "build_packet h argv destination_ip (take 4096 B) S P = Inr p" ..
  then show ?thesis by (simp add: loop_body_def recvfrom_def)
qed

text \<open>A packet that was built is determined by what \<open>build_packet_fields\<close> says of it.\<close>

lemma build_packet_eq:
  assumes "build_packet h argv destination_ip data S P = Inr p"
    and "argv_get argv 2 = Inr a" "py_int a = Inr port"
    and "h2i h S = Some s" "h2i h destination_ip = Some d"
  shows "p = \<lparr>pkt_src = addr_bytes s, pkt_dst = addr_bytes d, pkt_sport = nat P,
              pkt_dport = nat port, pkt_payload = reencode h (nat P) (nat port) data\<rparr>"
proof -
  from build_packet_fields [OF assms(1)] assms(2-5)
  have f: "pkt_src p = addr_bytes s" "pkt_dst p = addr_bytes d"
    "int (pkt_sport p) = P" "int (pkt_dport p) = port"
    "pkt_payload p = reencode h (pkt_sport p) (pkt_dport p) data"
    by auto
  from f(3,4) have "pkt_sport p = nat P" "pkt_dport p = nat port" by auto
  with f show ?thesis by (cases p) simp
qed

subsection \<open>The concrete runs, evaluated\<close>

lemma py_int_9000: "py_int (ascii ''9000'') = Inr 9000"
  by (simp add: py_int_def ascii_def to_ascii_def is_space_def numeral_value_def
        in_numeral_def is_digit_def digits_value_def)

lemma scenario_resolves:
  "h2i scenario_host (ascii ''192.168.1.20'') = Some (192, 168, 1, 20)"
  "h2i scenario_host (ascii ''10.0.0.5'') = Some (10, 0, 0, 5)"
  "bind_ok scenario_host 9000"
  by (simp_all add: scenario_host_def ascii_def)

lemma snmp_resolves:
  "h2i snmp_host (ascii ''192.168.1.20'') = Some (192, 168, 1, 20)"
  "h2i snmp_host (ascii ''10.0.0.5'') = Some (10, 0, 0, 5)"
  "bind_ok snmp_host 9000"
  by (simp_all add: snmp_host_def scenario_resolves)

lemma scenario_argv_get:
  "argv_get scenario_argv 1 = Inr (ascii ''10.0.0.5'')"
  "argv_get scenario_argv 2 = Inr (ascii ''9000'')"
  by (simp_all add: scenario_argv_def argv_get_def)

text \<open>The bytes of the first packet, as a check of the layout and of the checksums.\<close>

lemma scenario_raw:
  "raw \<lparr>ip_dst = (10, 0, 0, 5), ip_src = (192, 168, 1, 20), udp_dport = 9000,
        udp_sport = 5555, load = hello\<rparr> = Inr scenario_wire"
  by (simp add: raw_def hello_def ip_header_def ip_header_fields_def udp_datagram_def
        udp_header_fields_def udp_checksum_def checksum_def be16_def addr_bytes_def
        scenario_wire_def)

lemma scenario_loop_body:
  "length B \<le> 4096 \<Longrightarrow>
   loop_body scenario_host scenario_argv (ascii ''10.0.0.5'')
       (Datagram B (ascii ''192.168.1.20'') 5555, r)
     = ([EvRecvfrom 4096, EvStdout [PyBytes B, PyStr (ascii ''192.168.1.20''), PyInt 5555],
         EvSend \<lparr>pkt_src = [192, 168, 1, 20], pkt_dst = [10, 0, 0, 5],
                 pkt_sport = 5555, pkt_dport = 9000, pkt_payload = B\<rparr>], r)"
proof -
  assume len: "length B \<le> 4096"
  have range: "(0::int) \<le> 9000" "(9000::int) \<le> 65535" "(0::int) \<le> 5555" "(5555::int) \<le> 65535"
    by simp_all
  from loop_body_completes [OF scenario_argv_get(2) py_int_9000 range(1,2)
      scenario_resolves(1,2) range(3,4), of B r]
  obtain p where lb: "loop_body scenario_host scenario_argv (ascii ''10.0.0.5'')
       (Datagram B (ascii ''192.168.1.20'') 5555, r)
     = ([EvRecvfrom 4096,
         EvStdout [PyBytes (take 4096 B), PyStr (ascii ''192.168.1.20''), PyInt 5555],
         EvSend p], r)"
    and b: "build_packet scenario_host scenario_argv (ascii ''10.0.0.5'') (take 4096 B)
              (ascii ''192.168.1.20'') 5555 = Inr p"
    by blast
  from build_packet_eq [OF b scenario_argv_get(2) py_int_9000 scenario_resolves(1,2)] len
  have "p = \<lparr>pkt_src = [192, 168, 1, 20], pkt_dst = [10, 0, 0, 5],
              pkt_sport = 5555, pkt_dport = 9000, pkt_payload = B\<rparr>"
    by (simp add: addr_bytes_def scenario_host_def)
  with lb len show ?thesis by simp
qed

lemma second_loop_body:
  "loop_body scenario_host scenario_argv (ascii ''10.0.0.5'')
       (Datagram world (ascii ''192.168.1.20'') 5556, r)
     = ([EvRecvfrom 4096, EvStdout [PyBytes world, PyStr (ascii ''192.168.1.20''), PyInt 5556],
         EvSend second_packet], r)"
proof -
  have len: "take 4096 world = world" by (simp add: world_def)
  have range: "(0::int) \<le> 9000" "(9000::int) \<le> 65535" "(0::int) \<le> 5556" "(5556::int) \<le> 65535"
    by simp_all
  from loop_body_completes [OF scenario_argv_get(2) py_int_9000 range(1,2)
      scenario_resolves(1,2) range(3,4), of world r]
  obtain p where lb: "loop_body scenario_host scenario_argv (ascii ''10.0.0.5'')
       (Datagram world (ascii ''192.168.1.20'') 5556, r)
     = ([EvRecvfrom 4096,
         EvStdout [PyBytes (take 4096 world), PyStr (ascii ''192.168.1.20''), PyInt 5556],
         EvSend p], r)"
    and b: "build_packet scenario_host scenario_argv (ascii ''10.0.0.5'') (take 4096 world)
              (ascii ''192.168.1.20'') 5556 = Inr p"
    by blast
  from build_packet_eq [OF b scenario_argv_get(2) py_int_9000 scenario_resolves(1,2)]
  have "p = second_packet"
    by (simp add: addr_bytes_def scenario_host_def second_packet_def len)
  with lb len show ?thesis by simp
qed

lemma second_build:
  "build_packet scenario_host scenario_argv (ascii ''10.0.0.5'') world
       (ascii ''192.168.1.20'') 5556 = Inr second_packet"
proof -
  have range: "(0::int) \<le> 9000" "(9000::int) \<le> 65535" "(0::int) \<le> 5556" "(5556::int) \<le> 65535"
    by simp_all
  have len: "take 4096 world = world" by (simp add: world_def)
  from build_packet_succeeds [OF scenario_argv_get(2) py_int_9000 range(1,2)
      scenario_resolves(1,2) range(3,4), of world]
  obtain p where b: "build_packet scenario_host scenario_argv (ascii ''10.0.0.5'') world
       (ascii ''192.168.1.20'') 5556 = Inr p"
    by (auto simp: len)
  from build_packet_eq [OF b scenario_argv_get(2) py_int_9000 scenario_resolves(1,2)]
  have "p = second_packet"
    by (simp add: addr_bytes_def scenario_host_def second_packet_def)
  with b show ?thesis by simp
qed

lemma scenario_try_bind: "try_bind scenario_host scenario_argv = ([EvBind 9000], None)"
  by (rule try_bind_bound [OF scenario_argv_get(2) py_int_9000 _ _ scenario_resolves(3)])
    simp_all

lemma scenario_main:
  "main scenario_host scenario_argv steps =
     (EvBind 9000 # EvStdout [PyStr (ascii ''Socket activated'')]
        # fst (relay_loop scenario_host scenario_argv (ascii ''10.0.0.5'') steps),
      snd (relay_loop scenario_host scenario_argv (ascii ''10.0.0.5'') steps))"
  by (rule main_started [OF scenario_argv_get(1) scenario_try_bind])

lemma scenario_run:
  "main scenario_host scenario_argv [scenario_step] =
     ([EvBind 9000, EvStdout [PyStr (ascii ''Socket activated'')], EvRecvfrom 4096,
       EvStdout [PyBytes hello, PyStr (ascii ''192.168.1.20''), PyInt 5555],
       EvSend scenario_packet, EvRecvfrom 4096], Blocked)"
proof -
  have "length hello \<le> 4096" by (simp add: hello_def)
  from scenario_loop_body [OF this] show ?thesis
    by (simp add: scenario_main scenario_step_def scenario_packet_def)
qed

lemma scenario_run_two:
  "main scenario_host scenario_argv [scenario_step, second_step] =
     ([EvBind 9000, EvStdout [PyStr (ascii ''Socket activated'')], EvRecvfrom 4096,
       EvStdout [PyBytes hello, PyStr (ascii ''192.168.1.20''), PyInt 5555],
       EvSend scenario_packet, EvRecvfrom 4096,
       EvStdout [PyBytes world, PyStr (ascii ''192.168.1.20''), PyInt 5556],
       EvSend second_packet, EvRecvfrom 4096], Blocked)"
proof -
  have "length hello \<le> 4096" by (simp add: hello_def)
  from scenario_loop_body [OF this] show ?thesis
    by (simp add: scenario_main scenario_step_def second_step_def scenario_packet_def
          second_loop_body)
qed

text \<open>On the host whose library binds SNMP to port 161.\<close>

lemma snmp_main:
  "main snmp_host scenario_argv steps =
     (EvBind 9000 # EvStdout [PyStr (ascii ''Socket activated'')]
        # fst (relay_loop snmp_host scenario_argv (ascii ''10.0.0.5'') steps),
      snd (relay_loop snmp_host scenario_argv (ascii ''10.0.0.5'') steps))"
proof -
  have "try_bind snmp_host scenario_argv = ([EvBind 9000], None)"
    by (rule try_bind_bound [OF scenario_argv_get(2) py_int_9000 _ _ snmp_resolves(3)])
      simp_all
  with scenario_argv_get(1) show ?thesis by (rule main_started)
qed

lemma snmp_loop_body:
  "loop_body snmp_host scenario_argv (ascii ''10.0.0.5'')
       (Datagram B (ascii ''192.168.1.20'') 161, r)
     = ([EvRecvfrom 4096,
         EvStdout [PyBytes (take 4096 B), PyStr (ascii ''192.168.1.20''), PyInt 161],
         EvSend \<lparr>pkt_src = [192, 168, 1, 20], pkt_dst = [10, 0, 0, 5],
                 pkt_sport = 161, pkt_dport = 9000,
                 pkt_payload = snmp_reencode 161 9000 (take 4096 B)\<rparr>], r)"
proof -
  have range: "(0::int) \<le> 9000" "(9000::int) \<le> 65535" "(0::int) \<le> 161" "(161::int) \<le> 65535"
    by simp_all
  from loop_body_completes [OF scenario_argv_get(2) py_int_9000 range(1,2)
      snmp_resolves(1,2) range(3,4), of B r]
  obtain p where lb: "loop_body snmp_host scenario_argv (ascii ''10.0.0.5'')
       (Datagram B (ascii ''192.168.1.20'') 161, r)
     = ([EvRecvfrom 4096,
         EvStdout [PyBytes (take 4096 B), PyStr (ascii ''192.168.1.20''), PyInt 161],
         EvSend p], r)"
    and b: "build_packet snmp_host scenario_argv (ascii ''10.0.0.5'') (take 4096 B)
              (ascii ''192.168.1.20'') 161 = Inr p"
    by blast
  from build_packet_eq [OF b scenario_argv_get(2) py_int_9000 snmp_resolves(1,2)]
  have "p = \<lparr>pkt_src = [192, 168, 1, 20], pkt_dst = [10, 0, 0, 5],
              pkt_sport = 161, pkt_dport = 9000,
              pkt_payload = snmp_reencode 161 9000 (take 4096 B)\<rparr>"
    by (simp add: addr_bytes_def snmp_host_def)
  with lb show ?thesis by simp
qed

subsection \<open>Runs that end, runs that do not\<close>

lemma loop_body_counts:
  "count_list (fst (loop_body h argv destination_ip st)) (EvRecvfrom 4096) = 1
   \<and> length (sent (fst (loop_body h argv destination_ip st))) \<le> 1"
proof -
  obtain evs r where lb: "loop_body h argv destination_ip st = (evs, r)"
    by (cases "loop_body h argv destination_ip st")
  then have "count_list evs (EvRecvfrom 4096) = 1 \<and> length (sent evs) \<le> 1"
    by (cases rule: loop_body_cases) simp_all
  with lb show ?thesis by simp
qed

lemma iterations_counts:
  "count_list (concat (map (\<lambda>st. fst (loop_body h argv destination_ip st)) sts))
     (EvRecvfrom 4096) = length sts
   \<and> length (sent (concat (map (\<lambda>st. fst (loop_body h argv destination_ip st)) sts)))
       \<le> length sts"
proof (induction sts)
  case Nil
  show ?case by simp
next
  case (Cons st sts)
  from loop_body_counts [of h argv destination_ip st] Cons show ?case
    by (simp add: sent_append)
qed

text \<open>As long as no iteration raises, the loop goes on and ends up waiting.\<close>

lemma relay_loop_blocked:
  assumes "\<forall>st\<in>set sts. snd (loop_body h argv destination_ip st) = None"
  shows "relay_loop h argv destination_ip sts =
           (concat (map (\<lambda>st. fst (loop_body h argv destination_ip st)) sts)
              @ [EvRecvfrom 4096], Blocked)"
  using assms
proof (induction sts)
  case Nil
  show ?case by simp
next
  case (Cons st sts)
  then have "loop_body h argv destination_ip st
               = (fst (loop_body h argv destination_ip st), None)"
    by (simp add: prod_eq_iff)
  from relay_loop_goes_on [OF this] Cons show ?case by simp
qed

text \<open>The first iteration that raises ends the loop: the steps after it are never
  looked at.\<close>

lemma relay_loop_stops:
  assumes "\<forall>st\<in>set before. snd (loop_body h argv destination_ip st) = None"
    and "loop_body h argv destination_ip st = (evs, Some e)"
  shows "relay_loop h argv destination_ip (before @ st # later) =
           (concat (map (\<lambda>st. fst (loop_body h argv destination_ip st)) before) @ evs,
            Uncaught e)"
  using assms(1)
proof (induction before)
  case Nil
  from relay_loop_raises [OF assms(2)] show ?case by simp
next
  case (Cons b before)
  then have "loop_body h argv destination_ip b
               = (fst (loop_body h argv destination_ip b), None)"
    by (simp add: prod_eq_iff)
  from relay_loop_goes_on [OF this] Cons show ?case by simp
qed

lemma relay_loop_status:
  "snd (relay_loop h argv destination_ip steps) = Blocked
   \<or> (\<exists>e. snd (relay_loop h argv destination_ip steps) = Uncaught e)"
proof (induction steps)
  case Nil
  show ?case by simp
next
  case (Cons st sts)
  obtain evs r where lb: "loop_body h argv destination_ip st = (evs, r)"
    by (cases "loop_body h argv destination_ip st")
  with Cons show ?case by (cases r) (auto split: prod.splits)
qed

lemma main_never_exits_0: "snd (main h argv steps) \<noteq> Exited 0"
proof -
  obtain tr fin where run: "main h argv steps = (tr, fin)" by (cases "main h argv steps")
  from run have "fin \<noteq> Exited 0"
  proof (cases rule: main_cases)
    case (started destination_ip a port tr')
    with relay_loop_status [of h argv destination_ip steps] show ?thesis by auto
  qed simp_all
  with run show ?thesis by simp
qed

text \<open>The endless loop returns only through an exception that one of its iterations
  raised.\<close>

lemma relay_forever_SomeD:
  assumes "relay_forever h argv destination_ip future n = Some e"
  shows "\<exists>m\<ge>n. snd (loop_body h argv destination_ip (future m)) = Some e"
proof (rule relay_forever.raw_induct
    [where P = "\<lambda>h argv destination_ip future n e.
                  \<exists>m\<ge>n. snd (loop_body h argv destination_ip (future m)) = Some e",
     OF _ assms], goal_cases)
  case (1 relay_forever' h argv destination_ip future n e)
  show ?case
  proof (cases "snd (loop_body h argv destination_ip (future n))")
    case None
    with 1(2) have "relay_forever' h argv destination_ip future (Suc n) = Some e" by simp
    from 1(1) [OF this] obtain m where "Suc n \<le> m"
      "snd (loop_body h argv destination_ip (future m)) = Some e" by blast
    then show ?thesis by (intro exI [of _ m]) simp
  next
    case (Some e')
    with 1(2) show ?thesis by (intro exI [of _ n]) simp
  qed
qed

lemma relay_forever_raises:
  assumes "\<forall>m<k. snd (loop_body h argv destination_ip (future (n + m))) = None"
    and "snd (loop_body h argv destination_ip (future (n + k))) = Some e"
  shows "relay_forever h argv destination_ip future n = Some e"
  using assms
proof (induction k arbitrary: n)
  case 0
  then show ?case by (subst relay_forever.simps) simp
next
  case (Suc k)
  from Suc.prems(1) have here: "snd (loop_body h argv destination_ip (future n)) = None"
    by (metis add.right_neutral zero_less_Suc)
  from Suc.prems(1) have "\<forall>m<k. snd (loop_body h argv destination_ip (future (Suc n + m))) = None"
    by (metis Suc_less_eq add_Suc_shift)
  moreover from Suc.prems(2)
  have "snd (loop_body h argv destination_ip (future (Suc n + k))) = Some e" by simp
  ultimately have "relay_forever h argv destination_ip future (Suc n) = Some e"
    by (rule Suc.IH)
  with here show ?case by (subst relay_forever.simps) simp
qed

section \<open>The claims\<close>

text \<open>
  C1. Whenever the relay hands a packet to \<open>send\<close> for a datagram that \<open>recvfrom\<close>
  reported as coming from address \<open>S\<close> and port \<open>P\<close>, that packet carries the address
  of \<open>S\<close> as IP source, the address of the first command-line argument as IP destination,
  \<open>P\<close> as UDP source port, and the integer value of the second command-line argument as
  UDP destination port. The \<open>i\<close>-th packet sent belongs to the \<open>i\<close>-th datagram received.
\<close>

theorem forwarded_addressing:
  assumes "main h (prog # destination_ip # listen_port # extra) steps = (tr, fin)"
    and "i < length (sent tr)" and "fst (steps ! i) = Datagram B S P"
  shows "map_option addr_bytes (h2i h S) = Some (pkt_src (sent tr ! i))
       \<and> map_option addr_bytes (h2i h destination_ip) = Some (pkt_dst (sent tr ! i))
       \<and> int (pkt_sport (sent tr ! i)) = P
       \<and> py_int listen_port = Inr (int (pkt_dport (sent tr ! i)))"
proof -
  from main_sent_fields [OF assms] obtain dst a port s d where
    "argv_get (prog # destination_ip # listen_port # extra) 1 = Inr dst"
    "argv_get (prog # destination_ip # listen_port # extra) 2 = Inr a"
    and f: "py_int a = Inr port" "h2i h S = Some s" "h2i h dst = Some d"
      "pkt_src (sent tr ! i) = addr_bytes s" "pkt_dst (sent tr ! i) = addr_bytes d"
      "int (pkt_sport (sent tr ! i)) = P" "int (pkt_dport (sent tr ! i)) = port"
    by blast
  then have "dst = destination_ip" "a = listen_port" by (simp_all add: argv_get_Cons3)
  with f show ?thesis by simp
qed

theorem forwarded_addressing_witness:
  "main scenario_host [ascii ''udp_forward.py'', ascii ''10.0.0.5'', ascii ''9000'']
       [scenario_step]
     = ([EvBind 9000, EvStdout [PyStr (ascii ''Socket activated'')], EvRecvfrom 4096,
         EvStdout [PyBytes hello, PyStr (ascii ''192.168.1.20''), PyInt 5555],
         EvSend scenario_packet, EvRecvfrom 4096], Blocked)
   \<and> pkt_src scenario_packet = [192, 168, 1, 20]
   \<and> pkt_dst scenario_packet = [10, 0, 0, 5]
   \<and> pkt_sport scenario_packet = 5555
   \<and> pkt_dport scenario_packet = 9000"
proof -
  let ?tr = "[EvBind 9000, EvStdout [PyStr (ascii ''Socket activated'')], EvRecvfrom 4096,
         EvStdout [PyBytes hello, PyStr (ascii ''192.168.1.20''), PyInt 5555],
         EvSend scenario_packet, EvRecvfrom 4096]"
  have run: "main scenario_host [ascii ''udp_forward.py'', ascii ''10.0.0.5'', ascii ''9000'']
       [scenario_step] = (?tr, Blocked)"
    using scenario_run by (simp add: scenario_argv_def)
  have i: "0 < length (sent ?tr)" by simp
  have st: "fst ([scenario_step] ! 0) = Datagram hello (ascii ''192.168.1.20'') 5555"
    by (simp add: scenario_step_def)
  from forwarded_addressing [OF run i st] run show ?thesis
    by (simp add: scenario_resolves addr_bytes_def py_int_9000)
qed

text \<open>
  C2. The payload of a packet handed to \<open>send\<close> is what the packet library writes back
  for the data received, since line 22 reads the built bytes back into a packet. On a host
  whose library binds SNMP to port 161, the two-byte datagram \<open>30 80\<close> sent from port 161
  is logged as received and leaves with the payload \<open>30 00\<close>: the payload is not
  forwarded byte for byte.
\<close>

theorem snmp_payload_rewritten:
  "main snmp_host scenario_argv [snmp_step] =
     ([EvBind 9000, EvStdout [PyStr (ascii ''Socket activated'')], EvRecvfrom 4096,
       EvStdout [PyBytes [0x30, 0x80], PyStr (ascii ''192.168.1.20''), PyInt 161],
       EvSend \<lparr>pkt_src = [192, 168, 1, 20], pkt_dst = [10, 0, 0, 5],
               pkt_sport = 161, pkt_dport = 9000, pkt_payload = [0x30, 0x00]\<rparr>,
       EvRecvfrom 4096], Blocked)"
  by (simp add: snmp_main snmp_step_def snmp_loop_body snmp_reencode_def)

text \<open>
  C3. When the second argument is a port number in range and the host refuses to bind it
  (port in use, or permission denied), the whole run is: the bind attempt, the line
  \<open>Bind failed.\<close> on standard output, exit status 1. In particular no receive and no send
  happens, whatever datagrams are on their way.
\<close>

theorem bind_failure_exits_1:
  assumes "py_int listen_port = Inr port" "0 \<le> port" "port \<le> 65535"
    and "\<not> bind_ok h port"
  shows "main h (prog # destination_ip # listen_port # extra) steps =
           ([EvBind port, EvStdout [PyStr (ascii ''Bind failed.'')]], Exited 1)"
proof -
  let ?argv = "prog # destination_ip # listen_port # extra"
  have "try_bind h ?argv = ([EvBind port], Some OSError)"
    using argv_get_Cons3(2) assms by (rule try_bind_refused)
  then show ?thesis
    by (simp add: main_def argv_get_Cons3(3) is_socket_error_def)
qed

theorem bind_failure_exits_1_witness:
  "py_int (ascii ''9000'') = Inr 9000 \<and> \<not> bind_ok busy_host 9000
   \<and> main busy_host scenario_argv [scenario_step] =
       ([EvBind 9000, EvStdout [PyStr (ascii ''Bind failed.'')]], Exited 1)
   \<and> sent (fst (main busy_host scenario_argv [scenario_step])) = []
   \<and> count_list (fst (main busy_host scenario_argv [scenario_step])) (EvRecvfrom 4096) = 0
   \<and> py_int (0xA0 # ascii ''9000'') = Inr 9000
   \<and> main busy_host [ascii ''udp_forward.py'', ascii ''10.0.0.5'', 0xA0 # ascii ''9000'']
         [scenario_step] =
       ([EvBind 9000, EvStdout [PyStr (ascii ''Bind failed.'')]], Exited 1)"
proof -
  note p = py_int_9000
  note q = py_int_nbsp_9000
  have b: "\<not> bind_ok busy_host 9000"
    by (simp add: busy_host_def scenario_host_def)
  have "main busy_host scenario_argv [scenario_step] =
          ([EvBind 9000, EvStdout [PyStr (ascii ''Bind failed.'')]], Exited 1)"
    unfolding scenario_argv_def
    using bind_failure_exits_1
      [OF p _ _ b, of "ascii ''udp_forward.py''" "ascii ''10.0.0.5''" "[]"]
    by simp
  moreover
  have "main busy_host [ascii ''udp_forward.py'', ascii ''10.0.0.5'', 0xA0 # ascii ''9000'']
          [scenario_step] =
          ([EvBind 9000, EvStdout [PyStr (ascii ''Bind failed.'')]], Exited 1)"
    using bind_failure_exits_1
      [OF q _ _ b, of "ascii ''udp_forward.py''" "ascii ''10.0.0.5''" "[]"]
    by simp
  ultimately show ?thesis using p q b by simp
qed

text \<open>
  C4. A datagram of more than 4096 bytes is cut to its first 4096 bytes by \<open>recvfrom\<close>,
  and the payload of the packet handed to \<open>send\<close> is what the packet library writes back
  for those 4096 bytes. On the host whose library binds SNMP to port 161, a datagram of
  5000 bytes that begins \<open>30 80\<close>, sent from port 161, is received as its first 4096
  bytes and leaves with a payload of 4096 bytes that begins \<open>30 00\<close>: not the first 4096
  bytes of the datagram.
\<close>

theorem oversized_snmp_payload_rewritten:
  "recvfrom 4096 (fst oversized_snmp_step)
     = Inr (0x30 # 0x80 # replicate 4094 0x41, ascii ''192.168.1.20'', 161)
   \<and> map pkt_payload (sent (fst (main snmp_host scenario_argv [oversized_snmp_step])))
       = [0x30 # 0x00 # replicate 4094 0x41]"
  by (simp add: snmp_main oversized_snmp_step_def snmp_loop_body snmp_reencode_def
        recvfrom_def)

text \<open>
  C5. The trace around the \<open>j\<close>-th packet sent: it is the packet built from the \<open>j\<close>-th
  datagram, and it comes right after the receive call and the log line of that datagram.
  Before that receive call began, exactly \<open>j\<close> receive calls had been made and exactly
  the first \<open>j\<close> packets had been sent. So each datagram is logged and forwarded before
  the next receive begins, and packets leave in the order their datagrams arrived.
\<close>

theorem forwarding_order:
  assumes "main h (prog # destination_ip # listen_port # extra) steps = (tr, fin)"
    and "j < length (sent tr)" and "fst (steps ! j) = Datagram B S P"
  shows "\<exists>pre rest.
           tr = pre @ [EvRecvfrom 4096, EvStdout [PyBytes (take 4096 B), PyStr S, PyInt P],
                       EvSend (sent tr ! j)] @ rest
         \<and> count_list pre (EvRecvfrom 4096) = j \<and> sent pre = take j (sent tr)
         \<and> build_packet h (prog # destination_ip # listen_port # extra) destination_ip
              (take 4096 B) S P = Inr (sent tr ! j)"
proof -
  from main_sent [OF assms] obtain dst pre rest where
    d: "argv_get (prog # destination_ip # listen_port # extra) 1 = Inr dst"
    and f: "tr = pre @ [EvRecvfrom 4096, EvStdout [PyBytes (take 4096 B), PyStr S, PyInt P],
                       EvSend (sent tr ! j)] @ rest"
      "count_list pre (EvRecvfrom 4096) = j" "sent pre = take j (sent tr)"
      "build_packet h (prog # destination_ip # listen_port # extra) dst
              (take 4096 B) S P = Inr (sent tr ! j)"
    by blast
  from d have "dst = destination_ip" by (simp add: argv_get_Cons3)
  with f show ?thesis by blast
qed

theorem forwarding_order_witness:
  "sent (fst (main scenario_host [ascii ''udp_forward.py'', ascii ''10.0.0.5'', ascii ''9000'']
                 [scenario_step, second_step])) = [scenario_packet, second_packet]
   \<and> (\<exists>pre rest.
         fst (main scenario_host [ascii ''udp_forward.py'', ascii ''10.0.0.5'', ascii ''9000'']
                 [scenario_step, second_step])
           = pre @ [EvRecvfrom 4096, EvStdout [PyBytes world, PyStr (ascii ''192.168.1.20''), PyInt 5556],
                    EvSend second_packet] @ rest
         \<and> count_list pre (EvRecvfrom 4096) = 1 \<and> sent pre = [scenario_packet])"
proof -
  let ?argv = "[ascii ''udp_forward.py'', ascii ''10.0.0.5'', ascii ''9000'']"
  let ?tr = "[EvBind 9000, EvStdout [PyStr (ascii ''Socket activated'')], EvRecvfrom 4096,
       EvStdout [PyBytes hello, PyStr (ascii ''192.168.1.20''), PyInt 5555], EvSend scenario_packet,
       EvRecvfrom 4096,
       EvStdout [PyBytes world, PyStr (ascii ''192.168.1.20''), PyInt 5556], EvSend second_packet,
       EvRecvfrom 4096]"
  have run: "main scenario_host ?argv [scenario_step, second_step] = (?tr, Blocked)"
    using scenario_run_two by (simp add: scenario_argv_def)
  have j: "1 < length (sent ?tr)" by simp
  have st: "fst ([scenario_step, second_step] ! 1) = Datagram world (ascii ''192.168.1.20'') 5556"
    by (simp add: second_step_def)
  have w: "take 4096 world = world" by (simp add: world_def)
  from forwarding_order [OF run j st] run w show ?thesis by auto
qed

text \<open>
  C6. For every datagram that a receive call of the run returned, the trace has, right
  after that receive call, one \<open>print\<close> of the data received, the sender's address and
  the sender's port. When that line is written, the lines on standard output are the
  start-up line and one line for each earlier datagram, and no packet for this datagram
  has been sent yet: what follows the line is nothing (building the packet failed), or
  the \<open>send\<close> of this datagram's packet and then, if anything, the next receive call.
\<close>

theorem log_line_before_forward:
  assumes "main h argv steps = (tr, fin)"
    and "j < length steps" and "fst (steps ! j) = Datagram B S P"
    and "j < count_list tr (EvRecvfrom 4096)"
  shows "\<exists>pre post.
           tr = pre @ [EvRecvfrom 4096, EvStdout [PyBytes (take 4096 B), PyStr S, PyInt P]] @ post
         \<and> count_list pre (EvRecvfrom 4096) = j
         \<and> length (logged pre) = Suc j \<and> length (sent pre) = j
         \<and> (post = []
              \<or> (\<exists>w rest. post = EvSend w # rest
                    \<and> (rest = [] \<or> (\<exists>rest'. rest = EvRecvfrom 4096 # rest'))))"
proof -
  from main_iteration [OF assms] obtain dst pre post where
    f: "tr = pre @ [EvRecvfrom 4096, EvStdout [PyBytes (take 4096 B), PyStr S, PyInt P]] @ post"
      "count_list pre (EvRecvfrom 4096) = j" "length (sent pre) = j"
      "length (logged pre) = Suc j"
    and p: "(case build_packet h argv dst (take 4096 B) S P of
               Inl e \<Rightarrow> post = [] \<and> fin = Uncaught e
             | Inr w \<Rightarrow> \<exists>rest. post = EvSend w # rest
                     \<and> (rest = [] \<or> (\<exists>rest'. rest = EvRecvfrom 4096 # rest')))"
    by blast
  from p have "post = [] \<or> (\<exists>w rest. post = EvSend w # rest
                    \<and> (rest = [] \<or> (\<exists>rest'. rest = EvRecvfrom 4096 # rest')))"
    by (cases "build_packet h argv dst (take 4096 B) S P") auto
  with f show ?thesis by blast
qed

theorem log_line_before_forward_witness:
  "1 < count_list (fst (main scenario_host scenario_argv [scenario_step, second_step]))
         (EvRecvfrom 4096)
   \<and> (\<exists>pre post.
         fst (main scenario_host scenario_argv [scenario_step, second_step])
           = pre @ [EvRecvfrom 4096,
                    EvStdout [PyBytes (take 4096 world), PyStr (ascii ''192.168.1.20''), PyInt 5556]]
               @ post
         \<and> count_list pre (EvRecvfrom 4096) = 1
         \<and> length (logged pre) = Suc 1 \<and> length (sent pre) = 1
         \<and> (post = []
              \<or> (\<exists>w rest. post = EvSend w # rest
                    \<and> (rest = [] \<or> (\<exists>rest'. rest = EvRecvfrom 4096 # rest')))))"
proof -
  have j: "1 < length [scenario_step, second_step]" by simp
  have st: "fst ([scenario_step, second_step] ! 1) = Datagram world (ascii ''192.168.1.20'') 5556"
    by (simp add: second_step_def)
  have r: "1 < count_list [EvBind 9000, EvStdout [PyStr (ascii ''Socket activated'')], EvRecvfrom 4096,
       EvStdout [PyBytes hello, PyStr (ascii ''192.168.1.20''), PyInt 5555], EvSend scenario_packet,
       EvRecvfrom 4096,
       EvStdout [PyBytes world, PyStr (ascii ''192.168.1.20''), PyInt 5556], EvSend second_packet,
       EvRecvfrom 4096] (EvRecvfrom 4096)"
    by simp
  show ?thesis
    unfolding scenario_run_two fst_conv
    by (rule conjI [OF r log_line_before_forward [OF scenario_run_two j st r]])
qed

text \<open>
  C7. Let the socket be bound, let some iterations go through, and let then an iteration
  receive a datagram and raise \<open>e\<close> while building the packet or in \<open>send\<close>. Then the
  run ends there with \<open>e\<close> uncaught: its last events are the receive call and the log
  line of that datagram and, when the packet could be built, the one \<open>send\<close> that
  raised. Whatever would have arrived later plays no part: no further receive call is
  made, and no datagram is handed to \<open>send\<close> twice.
\<close>

theorem forward_error_is_fatal:
  assumes "argv = prog # destination_ip # listen_port # extra"
    and "py_int listen_port = Inr port" "0 \<le> port" "port \<le> 65535" "bind_ok h port"
    and "\<forall>st\<in>set before. snd (loop_body h argv destination_ip st) = None"
    and "build_packet h argv destination_ip (take 4096 B) S P = Inl e
         \<or> (\<exists>w. build_packet h argv destination_ip (take 4096 B) S P = Inr w \<and> r = Some e)"
  shows "snd (main h argv (before @ (Datagram B S P, r) # later)) = Uncaught e
       \<and> main h argv (before @ (Datagram B S P, r) # later)
           = main h argv (before @ [(Datagram B S P, r)])
       \<and> (\<exists>pre. fst (main h argv (before @ (Datagram B S P, r) # later))
             = pre @ [EvRecvfrom 4096, EvStdout [PyBytes (take 4096 B), PyStr S, PyInt P]]
                 @ (case build_packet h argv destination_ip (take 4096 B) S P of
                      Inl _ \<Rightarrow> [] | Inr w \<Rightarrow> [EvSend w]))
       \<and> count_list (fst (main h argv (before @ (Datagram B S P, r) # later)))
             (EvRecvfrom 4096) = Suc (length before)
       \<and> length (sent (fst (main h argv (before @ (Datagram B S P, r) # later))))
             \<le> Suc (length before)"
proof -
  let ?log = "EvStdout [PyBytes (take 4096 B), PyStr S, PyInt P]"
  let ?evs = "[EvRecvfrom 4096, ?log]
                 @ (case build_packet h argv destination_ip (take 4096 B) S P of
                      Inl _ \<Rightarrow> [] | Inr w \<Rightarrow> [EvSend w])"
  let ?its = "concat (map (\<lambda>st. fst (loop_body h argv destination_ip st)) before)"
  have lb: "loop_body h argv destination_ip (Datagram B S P, r) = (?evs, Some e)"
    using assms(7) by (auto simp: loop_body_def recvfrom_def)
  have loop: "relay_loop h argv destination_ip (before @ (Datagram B S P, r) # rest)
                = (?its @ ?evs, Uncaught e)" for rest
    using assms(6) lb by (rule relay_loop_stops)
  have a: "argv_get argv 1 = Inr destination_ip" "argv_get argv 2 = Inr listen_port"
    by (simp_all add: assms(1) argv_get_Cons3)
  have "try_bind h argv = ([EvBind port], None)"
    using a(2) assms(2-5) by (rule try_bind_bound)
  note m = main_started [OF a(1) this]
  have run: "main h argv (before @ (Datagram B S P, r) # rest)
               = (EvBind port # EvStdout [PyStr (ascii ''Socket activated'')] # ?its @ ?evs, Uncaught e)"
    for rest
    by (simp only: m loop fst_conv snd_conv)
  have c: "count_list ?evs (EvRecvfrom 4096) = 1" "length (sent ?evs) \<le> 1"
    by (simp_all split: sum.splits)
  from iterations_counts [of h argv destination_ip before] c
  have "count_list (EvBind port # EvStdout [PyStr (ascii ''Socket activated'')] # ?its @ ?evs)
          (EvRecvfrom 4096) = Suc (length before)"
    "length (sent (EvBind port # EvStdout [PyStr (ascii ''Socket activated'')] # ?its @ ?evs))
          \<le> Suc (length before)"
    by (simp_all add: sent_append)
  moreover
  have "EvBind port # EvStdout [PyStr (ascii ''Socket activated'')] # ?its @ ?evs
          = (EvBind port # EvStdout [PyStr (ascii ''Socket activated'')] # ?its) @ ?evs"
    by simp
  then have "\<exists>pre. EvBind port # EvStdout [PyStr (ascii ''Socket activated'')] # ?its @ ?evs
                 = pre @ ?evs" ..
  ultimately show ?thesis
    by (simp only: run fst_conv snd_conv)
qed

theorem forward_error_is_fatal_witness:
  "build_packet scenario_host scenario_argv (ascii ''10.0.0.5'') (take 4096 world) (ascii ''192.168.1.20'') 5556
     = Inr second_packet
   \<and> snd (main scenario_host scenario_argv
        ([scenario_step] @ (Datagram world (ascii ''192.168.1.20'') 5556, Some OSError) # [scenario_step]))
       = Uncaught OSError
   \<and> main scenario_host scenario_argv
        ([scenario_step] @ (Datagram world (ascii ''192.168.1.20'') 5556, Some OSError) # [scenario_step])
       = main scenario_host scenario_argv
           ([scenario_step] @ [(Datagram world (ascii ''192.168.1.20'') 5556, Some OSError)])
   \<and> count_list (fst (main scenario_host scenario_argv
        ([scenario_step] @ (Datagram world (ascii ''192.168.1.20'') 5556, Some OSError) # [scenario_step])))
        (EvRecvfrom 4096) = Suc (length [scenario_step])"
proof -
  have w: "take 4096 world = world" by (simp add: world_def)
  have b: "build_packet scenario_host scenario_argv (ascii ''10.0.0.5'') (take 4096 world)
             (ascii ''192.168.1.20'') 5556 = Inr second_packet"
    by (simp only: w second_build)
  have before: "\<forall>st\<in>set [scenario_step].
      snd (loop_body scenario_host scenario_argv (ascii ''10.0.0.5'') st) = None"
    by (simp add: scenario_step_def scenario_loop_body hello_def)
  have fails: "build_packet scenario_host scenario_argv (ascii ''10.0.0.5'') (take 4096 world)
             (ascii ''192.168.1.20'') 5556 = Inl OSError
         \<or> (\<exists>w. build_packet scenario_host scenario_argv (ascii ''10.0.0.5'') (take 4096 world)
                   (ascii ''192.168.1.20'') 5556 = Inr w \<and> Some OSError = Some OSError)"
    using b by simp
  have range: "(0::int) \<le> 9000" "(9000::int) \<le> 65535" by simp_all
  from forward_error_is_fatal [OF scenario_argv_def py_int_9000 range scenario_resolves(3)
      before fails, of "[scenario_step]"] b
  show ?thesis by blast
qed

text \<open>
  C8. Let the socket be bound and let no iteration ever raise, in receive or in forward.
  Then the loop over the endless supply of steps never returns; after any number \<open>n\<close>
  of completed iterations the run is waiting in receive call number \<open>n + 1\<close>; and no run
  of the script at all ends with exit status 0.
\<close>

theorem relay_runs_forever:
  assumes "argv = prog # destination_ip # listen_port # extra"
    and "py_int listen_port = Inr port" "0 \<le> port" "port \<le> 65535" "bind_ok h port"
    and "\<forall>n. snd (loop_body h argv destination_ip (future n)) = None"
  shows "relay_forever h argv destination_ip future 0 = None
       \<and> (\<forall>n. snd (main h argv (map future [0..<n])) = Blocked
              \<and> count_list (fst (main h argv (map future [0..<n]))) (EvRecvfrom 4096) = Suc n)
       \<and> (\<forall>steps. snd (main h argv steps) \<noteq> Exited 0)"
proof -
  have "relay_forever h argv destination_ip future 0 = None"
  proof (cases "relay_forever h argv destination_ip future 0")
    case (Some e)
    from relay_forever_SomeD [OF this] assms(6) show ?thesis by simp
  qed simp
  moreover
  have "snd (main h argv (map future [0..<n])) = Blocked
      \<and> count_list (fst (main h argv (map future [0..<n]))) (EvRecvfrom 4096) = Suc n" for n
  proof -
    let ?sts = "map future [0..<n]"
    have a: "argv_get argv 1 = Inr destination_ip" "argv_get argv 2 = Inr listen_port"
      by (simp_all add: assms(1) argv_get_Cons3)
    have "try_bind h argv = ([EvBind port], None)"
      using a(2) assms(2-5) by (rule try_bind_bound)
    note m = main_started [OF a(1) this]
    from assms(6) have "\<forall>st\<in>set ?sts. snd (loop_body h argv destination_ip st) = None"
      by auto
    note loop = relay_loop_blocked [OF this]
    from iterations_counts [of h argv destination_ip ?sts]
    show ?thesis by (simp only: m loop fst_conv snd_conv) simp
  qed
  ultimately show ?thesis using main_never_exits_0 by blast
qed

theorem relay_runs_forever_witness:
  "(\<forall>n. snd (loop_body scenario_host scenario_argv (ascii ''10.0.0.5'') scenario_step) = None)
   \<and> relay_forever scenario_host scenario_argv (ascii ''10.0.0.5'') (\<lambda>n. scenario_step) 0 = None
   \<and> snd (main scenario_host scenario_argv (map (\<lambda>n. scenario_step) [0..<2])) = Blocked
   \<and> count_list (fst (main scenario_host scenario_argv (map (\<lambda>n. scenario_step) [0..<2])))
        (EvRecvfrom 4096) = 3"
proof -
  have ok: "\<forall>n::nat. snd (loop_body scenario_host scenario_argv (ascii ''10.0.0.5'') scenario_step) = None"
    by (simp add: scenario_step_def scenario_loop_body hello_def)
  from relay_runs_forever [OF scenario_argv_def py_int_9000 _ _ scenario_resolves(3) ok] ok
  show ?thesis by simp
qed

text \<open>
  C9. With fewer than two positional arguments, or with a second argument that \<open>int\<close>
  does not accept, the run is empty and ends in an uncaught \<open>IndexError\<close> or
  \<open>ValueError\<close>: nothing is printed, so in particular not \<open>Bind failed.\<close>, no bind
  is attempted, and the run does not end through the \<open>sys.exit(1)\<close> of the handler.
\<close>

theorem bad_arguments_uncaught:
  assumes "length argv < 3 \<or> (\<exists>e. py_int (argv ! 2) = Inl e)"
  shows "main h argv steps =
           ([], Uncaught (if length argv < 3 then IndexError else ValueError))"
proof (cases "length argv < 2")
  case True
  then show ?thesis by (simp add: main_def argv_get_def)
next
  case two: False
  show ?thesis
  proof (cases "length argv < 3")
    case True
    with two show ?thesis
      by (simp add: main_def argv_get_def try_bind_def is_socket_error_def)
  next
    case False
    with assms obtain e where "py_int (argv ! 2) = Inl e" by blast
    with py_int_Inl [OF this] have "py_int (argv ! 2) = Inl ValueError" by simp
    with False show ?thesis
      by (simp add: main_def argv_get_def try_bind_def is_socket_error_def)
  qed
qed

theorem bad_arguments_uncaught_witness:
  "main busy_host [ascii ''udp_forward.py''] [scenario_step] = ([], Uncaught IndexError)
   \<and> main busy_host [ascii ''udp_forward.py'', ascii ''10.0.0.5''] [scenario_step]
       = ([], Uncaught IndexError)
   \<and> py_int (ascii ''90x0'') = Inl ValueError
   \<and> main busy_host [ascii ''udp_forward.py'', ascii ''10.0.0.5'', ascii ''90x0'']
         [scenario_step] = ([], Uncaught ValueError)
   \<and> py_int (ascii ''9000'' @ [0x1F]) = Inl ValueError
   \<and> main busy_host [ascii ''udp_forward.py'', ascii ''10.0.0.5'', ascii ''9000'' @ [0x1F]]
         [scenario_step] = ([], Uncaught ValueError)"
proof -
  have p: "py_int (ascii ''90x0'') = Inl ValueError"
    by (simp add: py_int_def ascii_def to_ascii_def is_space_def numeral_value_def
          in_numeral_def is_digit_def)
  note q = py_int_9000_separator
  have "main busy_host [ascii ''udp_forward.py''] [scenario_step] = ([], Uncaught IndexError)"
    using bad_arguments_uncaught [of "[ascii ''udp_forward.py'']" busy_host "[scenario_step]"]
    by simp
  moreover
  have "main busy_host [ascii ''udp_forward.py'', ascii ''10.0.0.5''] [scenario_step]
          = ([], Uncaught IndexError)"
    using bad_arguments_uncaught
      [of "[ascii ''udp_forward.py'', ascii ''10.0.0.5'']" busy_host "[scenario_step]"]
    by simp
  moreover
  have "main busy_host [ascii ''udp_forward.py'', ascii ''10.0.0.5'', ascii ''90x0'']
          [scenario_step] = ([], Uncaught ValueError)"
    using bad_arguments_uncaught
      [of "[ascii ''udp_forward.py'', ascii ''10.0.0.5'', ascii ''90x0'']" busy_host
          "[scenario_step]"] p
    by simp
  moreover
  have "main busy_host [ascii ''udp_forward.py'', ascii ''10.0.0.5'', ascii ''9000'' @ [0x1F]]
          [scenario_step] = ([], Uncaught ValueError)"
    using bad_arguments_uncaught
      [of "[ascii ''udp_forward.py'', ascii ''10.0.0.5'', ascii ''9000'' @ [0x1F]]" busy_host
          "[scenario_step]"] q
    by simp
  ultimately show ?thesis using p q by simp
qed

text \<open>
  C10. Once the socket is bound, the run begins with the bind, then the line
  \<open>Socket activated\<close>, then the first receive call; and that line occurs exactly once in
  the whole run, whatever arrives: no log line of a datagram is equal to it.
\<close>

theorem socket_activated_once:
  assumes "argv = prog # destination_ip # listen_port # extra"
    and "py_int listen_port = Inr port" "0 \<le> port" "port \<le> 65535" "bind_ok h port"
  shows "(\<exists>tr'. fst (main h argv steps)
                  = EvBind port # EvStdout [PyStr (ascii ''Socket activated'')] # EvRecvfrom 4096 # tr')
       \<and> count_list (fst (main h argv steps)) (EvStdout [PyStr (ascii ''Socket activated'')]) = 1"
proof -
  have a: "argv_get argv 1 = Inr destination_ip" "argv_get argv 2 = Inr listen_port"
    by (simp_all add: assms(1) argv_get_Cons3)
  have "try_bind h argv = ([EvBind port], None)"
    using a(2) assms(2-5) by (rule try_bind_bound)
  note m = main_started [OF a(1) this]
  from relay_loop_starts_with_recvfrom [of h argv destination_ip steps]
  have first: "\<exists>tr'. fst (main h argv steps)
                  = EvBind port # EvStdout [PyStr (ascii ''Socket activated'')] # EvRecvfrom 4096 # tr'"
    by (simp add: m)
  from relay_loop_no_single_line [of "PyStr (ascii ''Socket activated'')" h argv destination_ip steps]
  have "count_list (fst (relay_loop h argv destination_ip steps))
          (EvStdout [PyStr (ascii ''Socket activated'')]) = 0"
    by (rule count_notin)
  then have "count_list (fst (main h argv steps)) (EvStdout [PyStr (ascii ''Socket activated'')]) = 1"
    by (simp add: m)
  with first show ?thesis by simp
qed

theorem socket_activated_once_witness:
  "fst (main scenario_host scenario_argv [scenario_step, second_step])
     = [EvBind 9000, EvStdout [PyStr (ascii ''Socket activated'')], EvRecvfrom 4096,
        EvStdout [PyBytes hello, PyStr (ascii ''192.168.1.20''), PyInt 5555], EvSend scenario_packet,
        EvRecvfrom 4096,
        EvStdout [PyBytes world, PyStr (ascii ''192.168.1.20''), PyInt 5556], EvSend second_packet,
        EvRecvfrom 4096]
   \<and> count_list (fst (main scenario_host scenario_argv [scenario_step, second_step]))
        (EvStdout [PyStr (ascii ''Socket activated'')]) = 1"
proof -
  from socket_activated_once [OF scenario_argv_def py_int_9000 _ _ scenario_resolves(3),
      of "[scenario_step, second_step]"]
  have "count_list (fst (main scenario_host scenario_argv [scenario_step, second_step]))
        (EvStdout [PyStr (ascii ''Socket activated'')]) = 1"
    by simp
  then show ?thesis by (simp add: scenario_run_two)
qed

end
